theory Spec2Isabelle
  imports Main "HOL-Library.Sublist"
begin

section \<open>JavaScript strings\<close>

text \<open>
  A JavaScript string is a sequence of UTF-16 code units. The model uses \<^typ>\<open>string\<close>:
  a \<^typ>\<open>char\<close> is one code unit in the range 0..255, so the model covers the strings
  whose code units all lie below 256. Optional parameters and optional fields
  (\<^verbatim>\<open>folder?: string\<close>) are \<^typ>\<open>string option\<close>, \<open>None\<close> standing for \<^verbatim>\<open>undefined\<close>.
\<close>

definition slash :: char where
  "slash = CHR ''/''"

definition dq :: char where
  "dq = CHR 0x22"

text \<open>\<^verbatim>\<open>s.startsWith(p)\<close>, \<^verbatim>\<open>s.endsWith(p)\<close>, \<^verbatim>\<open>s.includes(p)\<close>.\<close>

definition startsWith :: "string \<Rightarrow> string \<Rightarrow> bool" where
  "startsWith s p = prefix p s"

definition endsWith :: "string \<Rightarrow> string \<Rightarrow> bool" where
  "endsWith s p = suffix p s"

definition js_includes :: "string \<Rightarrow> string \<Rightarrow> bool" where
  "js_includes s p = sublist p s"

text \<open>\<^verbatim>\<open>s.replace(/^\/+/, '')\<close> and \<^verbatim>\<open>s.replace(/\/+$/, '')\<close>.\<close>

definition strip_leading :: "string \<Rightarrow> string" where
  "strip_leading s = dropWhile (\<lambda>c. c = slash) s"

definition strip_trailing :: "string \<Rightarrow> string" where
  "strip_trailing s = rev (dropWhile (\<lambda>c. c = slash) (rev s))"

text \<open>
  \<^verbatim>\<open>s.trim()\<close> removes white space and line terminators from both ends; below 256 these
  are the code units 9 to 13, 32 and 160.
\<close>

definition is_space :: "char \<Rightarrow> bool" where
  "is_space c = (let n = (of_char c :: nat) in (9 \<le> n \<and> n \<le> 13) \<or> n = 32 \<or> n = 160)"

definition trim :: "string \<Rightarrow> string" where
  "trim s = rev (dropWhile is_space (rev (dropWhile is_space s)))"

text \<open>
  \<^verbatim>\<open>s.split(sep)\<close> for a string separator: the pieces between the occurrences of \<open>sep\<close>,
  found from the left without overlap; with the empty separator, the code units one by one.
\<close>

function js_split :: "string \<Rightarrow> string \<Rightarrow> string list" where
  "js_split sep s =
     (if sep = [] then map (\<lambda>c. [c]) s
      else if s = [] then [[]]
      else if prefix sep s then [] # js_split sep (drop (length sep) s)
      else (let r = js_split sep (tl s) in (hd s # hd r) # tl r))"
  by pat_completeness auto
termination
  by (relation "measure (\<lambda>(sep, s). length s)") (auto simp: neq_Nil_conv)

declare js_split.simps [simp del]

text \<open>\<^verbatim>\<open>parts.join(sep)\<close>.\<close>

fun js_join :: "string \<Rightarrow> string list \<Rightarrow> string" where
  "js_join sep [] = []"
| "js_join sep [x] = x"
| "js_join sep (x # y # ys) = x @ sep @ js_join sep (y # ys)"

text \<open>A value used as a condition: \<^verbatim>\<open>undefined\<close> and the empty string are falsy.\<close>

fun truthy :: "string option \<Rightarrow> bool" where
  "truthy None = False"
| "truthy (Some s) = (s \<noteq> [])"

text \<open>JavaScript has one exception type here, \<^verbatim>\<open>Error\<close>, carrying its message.\<close>

datatype error = Error (message: string)

section \<open>Folder guard\<close>

text \<open>\<^verbatim>\<open>validatePath(path, allowedFolder)\<close>\<close>

definition validatePath :: "string \<Rightarrow> string option \<Rightarrow> bool" where
  "validatePath path allowedFolder =
     (case allowedFolder of
        None \<Rightarrow> True
      | Some f \<Rightarrow>
          if f = [] then True
          else
            (let normalizedPath = strip_trailing (strip_leading path);
                 normalizedFolder = strip_trailing (strip_leading f)
             in startsWith normalizedPath (normalizedFolder @ [slash])
                \<or> normalizedPath = normalizedFolder))"

text \<open>The message of the error thrown by \<^verbatim>\<open>enforceFolderSecurity\<close>.\<close>

definition access_denied :: "string \<Rightarrow> string \<Rightarrow> string" where
  "access_denied path f =
     ''Access denied: Path '' @ [dq] @ path @ [dq]
       @ '' is outside the allowed folder '' @ [dq] @ f @ [dq]"

text \<open>\<^verbatim>\<open>enforceFolderSecurity(path, allowedFolder)\<close>\<close>

definition enforceFolderSecurity :: "string \<Rightarrow> string option \<Rightarrow> error + string" where
  "enforceFolderSecurity path allowedFolder =
     (case allowedFolder of
        None \<Rightarrow> Inr path
      | Some f \<Rightarrow>
          if f = [] then Inr path
          else if \<not> validatePath path allowedFolder then Inl (Error (access_denied path f))
          else Inr path)"

text \<open>\<^verbatim>\<open>ensurePathInFolder(path, allowedFolder)\<close>\<close>

definition ensurePathInFolder :: "string \<Rightarrow> string option \<Rightarrow> string" where
  "ensurePathInFolder path allowedFolder =
     (case allowedFolder of
        None \<Rightarrow> path
      | Some f \<Rightarrow>
          if f = [] then path
          else
            (let normalizedPath = strip_leading path;
                 normalizedFolder = strip_trailing (strip_leading f)
             in if \<not> startsWith normalizedPath (normalizedFolder @ [slash])
                   \<and> normalizedPath \<noteq> normalizedFolder
                then normalizedFolder @ [slash] @ normalizedPath
                else normalizedPath))"

section \<open>Path resolver\<close>

record RepoPathDescriptor =
  owner :: string
  repo :: string
  folder :: "string option"
  specificFile :: "string option"
  isFile :: bool

text \<open>The character class \<^verbatim>\<open>[a-zA-Z0-9]\<close>.\<close>

definition is_alnum :: "char \<Rightarrow> bool" where
  "is_alnum c =
     (let n = (of_char c :: nat)
      in (97 \<le> n \<and> n \<le> 122) \<or> (65 \<le> n \<and> n \<le> 90) \<or> (48 \<le> n \<and> n \<le> 57))"

text \<open>
  \<^verbatim>\<open>/\.[a-zA-Z0-9]+$/.test(s)\<close>: the longest run of alphanumerics at the end of \<open>s\<close> is
  not empty and has a dot before it.
\<close>

definition fileExtensionRegex :: "string \<Rightarrow> bool" where
  "fileExtensionRegex s =
     (let r = rev s
      in takeWhile is_alnum r \<noteq> []
         \<and> (case dropWhile is_alnum r of [] \<Rightarrow> False | c # _ \<Rightarrow> c = CHR ''.''))"

text \<open>\<^verbatim>\<open>/^[a-zA-Z0-9._-]+$/.test(s)\<close>\<close>

definition validRepoRegex :: "string \<Rightarrow> bool" where
  "validRepoRegex s =
     (s \<noteq> [] \<and> list_all (\<lambda>c. is_alnum c \<or> c = CHR ''.'' \<or> c = CHR ''_'' \<or> c = CHR ''-'') s)"

text \<open>
  The first part of \<^verbatim>\<open>parseGitHubRepoPath\<close>: white space and slashes at both ends, the
  protocol, the \<^verbatim>\<open>github.com/\<close> prefix and the \<^verbatim>\<open>.git\<close> suffix are removed, in this order.
\<close>

definition clean_path :: "string \<Rightarrow> string" where
  "clean_path repoPath =
     (let c0 = strip_trailing (strip_leading (trim repoPath));
          c1 = (if startsWith c0 ''https://'' then drop 8 c0
                else if startsWith c0 ''http://'' then drop 7 c0
                else c0);
          c2 = (if startsWith c1 ''github.com/'' then drop (length ''github.com/'') c1 else c1);
          c3 = (if endsWith c2 ''.git'' then take (length c2 - 4) c2 else c2)
      in c3)"

text \<open>The branch of \<^verbatim>\<open>parseGitHubRepoPath\<close> for a path that includes \<^verbatim>\<open>/tree/\<close>.\<close>

definition parse_tree :: "string \<Rightarrow> string \<Rightarrow> error + RepoPathDescriptor" where
  "parse_tree repoPath cleanPath =
     (let treeParts = js_split ''/tree/'' cleanPath
      in if length treeParts \<noteq> 2
         then Inl (Error (''Invalid GitHub tree URL format: '' @ repoPath))
         else
           (let repoPathPart = treeParts ! 0;
                branchAndFolder = treeParts ! 1;
                repoParts = js_split ''/'' repoPathPart
            in if length repoParts < 2
               then Inl (Error (''Invalid repo path in tree URL: '' @ repoPath))
               else
                 (let branchFolderParts = js_split ''/'' branchAndFolder;
                      d = \<lparr>owner = repoParts ! 0, repo = repoParts ! 1, folder = None,
                           specificFile = None, isFile = False\<rparr>
                  in if length branchFolderParts > 1
                     then
                       (let fullPath = js_join ''/'' (drop 1 branchFolderParts)
                        in if fileExtensionRegex fullPath
                           then
                             (let pathParts = js_split ''/'' fullPath
                              in Inr (d\<lparr>isFile := True, specificFile := Some fullPath,
                                        folder := (if length pathParts > 1
                                                   then Some (js_join ''/'' (butlast pathParts))
                                                   else None)\<rparr>))
                           else Inr (d\<lparr>folder := Some fullPath\<rparr>))
                     else Inr d)))"

text \<open>The branch for a simple path \<^verbatim>\<open>owner/repo\<close> or \<^verbatim>\<open>owner/repo/folder/subfolder\<close>.\<close>

definition parse_plain :: "string \<Rightarrow> string \<Rightarrow> error + RepoPathDescriptor" where
  "parse_plain repoPath cleanPath =
     (let parts = js_split ''/'' cleanPath
      in if length parts < 2
         then Inl (Error (''Invalid repo path format: '' @ repoPath
                          @ ''. Expected format: owner/repo or owner/repo/folder''))
         else
           (let d = \<lparr>owner = parts ! 0, repo = parts ! 1, folder = None,
                     specificFile = None, isFile = False\<rparr>
            in if length parts > 2
               then
                 (let pathParts = drop 2 parts;
                      fullPath = js_join ''/'' pathParts
                  in if fileExtensionRegex fullPath
                     then Inr (d\<lparr>isFile := True, specificFile := Some fullPath,
                               folder := (if length pathParts > 1
                                          then Some (js_join ''/'' (butlast pathParts))
                                          else None)\<rparr>)
                     else Inr (d\<lparr>folder := Some fullPath\<rparr>))
               else Inr d))"

text \<open>The checks on owner and repo that end \<^verbatim>\<open>parseGitHubRepoPath\<close>.\<close>

definition validate_owner_repo :: "RepoPathDescriptor \<Rightarrow> error + RepoPathDescriptor" where
  "validate_owner_repo d =
     (if owner d = [] \<or> repo d = []
      then Inl (Error (''Invalid repo path: owner and repo cannot be empty. Got owner=''
                       @ [dq] @ owner d @ [dq] @ '', repo='' @ [dq] @ repo d @ [dq]))
      else if \<not> validRepoRegex (owner d)
      then Inl (Error (''Invalid owner name: '' @ owner d
             @ ''. Must contain only alphanumeric characters, dots, underscores, and hyphens.''))
      else if \<not> validRepoRegex (repo d)
      then Inl (Error (''Invalid repo name: '' @ repo d
             @ ''. Must contain only alphanumeric characters, dots, underscores, and hyphens.''))
      else Inr d)"

text \<open>\<^verbatim>\<open>parseGitHubRepoPath(repoPath)\<close>\<close>

definition parseGitHubRepoPath :: "string \<Rightarrow> error + RepoPathDescriptor" where
  "parseGitHubRepoPath repoPath =
     (if repoPath = []
      then Inl (Error ''GitHub repo path is required and must be a string'')
      else
        (let cleanPath = clean_path repoPath
         in case (if js_includes cleanPath ''/tree/''
                  then parse_tree repoPath cleanPath
                  else parse_plain repoPath cleanPath) of
              Inl e \<Rightarrow> Inl e
            | Inr d \<Rightarrow> validate_owner_repo d))"

section \<open>GitHub client\<close>

text \<open>
  The remote service and the sources of time and randomness are the environment of the
  program. A request is what \<^verbatim>\<open>fetch\<close> sends: the method, the URL, the bearer token and,
  for POST and PUT, the fields of the JSON body. The environment answers a request, given
  the requests made before it, either by rejecting the \<^verbatim>\<open>fetch\<close> promise or with a response.
  Reading the body of a response is taken to succeed, and the JSON of a successful
  contents response to have the fields the executors read.
\<close>

datatype request =
    Get string string
  | Post string string "(string \<times> string) list"
  | Put string string "(string \<times> string) list"
  | Delete string string

record gh_json =
  j_type :: string
  j_size :: nat
  j_html_url :: string
  j_content :: string

record response =
  status :: nat
  statusText :: string
  body_text :: string
  body_json :: gh_json

datatype fetch_result = Rejected string | Response response

record ConfigEntry =
  name :: string
  description :: string
  github_repo_path :: string
  github_token :: string

record env =
  remote :: "request list \<Rightarrow> request \<Rightarrow> fetch_result"
  clock :: "nat \<Rightarrow> string"
  random36 :: "nat \<Rightarrow> string"
  catalog :: "ConfigEntry list"
  env_GITHUB_TOKEN :: "string option"
  env_GITHUB_OWNER :: "string option"
  env_GITHUB_REPO :: "string option"
  atob_message :: string

text \<open>
  The state threaded through the program: the requests sent so far, in order, and the
  number of branch names generated so far.
\<close>

record world =
  requests :: "request list"
  generated :: nat

definition fetch :: "env \<Rightarrow> request \<Rightarrow> world \<Rightarrow> fetch_result \<times> world" where
  "fetch e rq w = (remote e (requests w) rq, w\<lparr>requests := requests w @ [rq]\<rparr>)"

text \<open>\<^verbatim>\<open>response.ok\<close>\<close>

definition ok :: "response \<Rightarrow> bool" where
  "ok r = (200 \<le> status r \<and> status r \<le> 299)"

text \<open>A non-negative integer in a template literal.\<close>

definition digit :: "nat \<Rightarrow> char" where
  "digit d = char_of (48 + d)"

function show_nat :: "nat \<Rightarrow> string" where
  "show_nat n = (if n < 10 then [digit n] else show_nat (n div 10) @ [digit (n mod 10)])"
  by pat_completeness auto
termination
  by (relation "measure id") auto

declare show_nat.simps [simp del]

text \<open>The message of the error thrown for a response that is not ok.\<close>

definition api_error :: "response \<Rightarrow> string" where
  "api_error r =
     ''GitHub API error: '' @ show_nat (status r) @ '' '' @ statusText r @ '' - '' @ body_text r"

definition request_result :: "fetch_result \<Rightarrow> error + gh_json" where
  "request_result fr =
     (case fr of
        Rejected m \<Rightarrow> Inl (Error m)
      | Response r \<Rightarrow> if \<not> ok r then Inl (Error (api_error r)) else Inr (body_json r))"

text \<open>\<^verbatim>\<open>fetchGitHubAPI(url, token)\<close> and \<^verbatim>\<open>postGitHubAPI(url, token, data)\<close>\<close>

definition fetchGitHubAPI :: "env \<Rightarrow> string \<Rightarrow> string \<Rightarrow> world \<Rightarrow> (error + gh_json) \<times> world" where
  "fetchGitHubAPI e url tok w = (let (fr, w') = fetch e (Get url tok) w in (request_result fr, w'))"


section \<open>Branch allocator\<close>







definition allocation_failed :: "nat \<Rightarrow> string" where
  "allocation_failed maxAttempts = ''Failed to create branch after '' @ show_nat maxAttempts @ '' attempts''"





section \<open>Base64\<close>

text \<open>
  \<^verbatim>\<open>new TextEncoder().encode(str)\<close>: the UTF-8 bytes of the string. A code unit below 128
  is one byte; a code unit from 128 to 255 is the two bytes \<open>110xxxxx 10xxxxxx\<close>.
\<close>

definition utf8_encode :: "string \<Rightarrow> nat list" where
  "utf8_encode str =
     concat (map (\<lambda>c. let n = (of_char c :: nat)
                       in if n < 128 then [n] else [192 + n div 64, 128 + n mod 64]) str)"

text \<open>The base64 alphabet: the character of a 6-bit value, and the value of a character.\<close>

definition b64_char :: "nat \<Rightarrow> char" where
  "b64_char n =
     (if n < 26 then char_of (65 + n)
      else if n < 52 then char_of (71 + n)
      else if n < 62 then char_of (n - 4)
      else if n = 62 then CHR ''+''
      else CHR ''/'')"

definition b64_index :: "char \<Rightarrow> nat option" where
  "b64_index c =
     (let n = (of_char c :: nat)
      in if 65 \<le> n \<and> n \<le> 90 then Some (n - 65)
         else if 97 \<le> n \<and> n \<le> 122 then Some (n - 71)
         else if 48 \<le> n \<and> n \<le> 57 then Some (n + 4)
         else if n = 43 then Some 62
         else if n = 47 then Some 63
         else None)"

text \<open>
  \<^verbatim>\<open>btoa(binary)\<close>: three bytes become four characters, and the last group is padded
  with \<^verbatim>\<open>=\<close>. Every code unit of the model is a byte, so \<^verbatim>\<open>btoa\<close> does not throw.
\<close>

fun b64_groups :: "nat list \<Rightarrow> string" where
  "b64_groups (a # b # c # rest) =
     [b64_char (a div 4), b64_char ((a mod 4) * 16 + b div 16),
      b64_char ((b mod 16) * 4 + c div 64), b64_char (c mod 64)] @ b64_groups rest"
| "b64_groups [a, b] =
     [b64_char (a div 4), b64_char ((a mod 4) * 16 + b div 16), b64_char ((b mod 16) * 4), CHR ''='']"
| "b64_groups [a] = [b64_char (a div 4), b64_char ((a mod 4) * 16), CHR ''='', CHR ''='']"
| "b64_groups [] = []"

definition btoa :: "string \<Rightarrow> string" where
  "btoa binary = b64_groups (map of_char binary)"

text \<open>\<^verbatim>\<open>encodeBase64(str)\<close>\<close>

definition encodeBase64 :: "string \<Rightarrow> string" where
  "encodeBase64 str =
     (let utf8Bytes = utf8_encode str;
          binary = foldl (\<lambda>b x. b @ [char_of x]) [] utf8Bytes
      in btoa binary)"

text \<open>
  \<^verbatim>\<open>atob(data)\<close>: ASCII white space is removed; if the length is then a multiple of four,
  one or two \<^verbatim>\<open>=\<close> at the end are removed; a length of 1 modulo 4 or a character outside
  the alphabet makes it throw (\<open>None\<close>); four characters become three bytes, and the bits
  left over by a last group of two or three characters are dropped. The result is the
  string whose code units are the bytes.
\<close>

definition is_ascii_ws :: "char \<Rightarrow> bool" where
  "is_ascii_ws c = (let n = (of_char c :: nat) in n = 9 \<or> n = 10 \<or> n = 12 \<or> n = 13 \<or> n = 32)"

fun b64_bytes :: "nat list \<Rightarrow> nat list" where
  "b64_bytes (a # b # c # d # rest) =
     [a * 4 + b div 16, (b mod 16) * 16 + c div 4, (c mod 4) * 64 + d] @ b64_bytes rest"
| "b64_bytes [a, b, c] = [a * 4 + b div 16, (b mod 16) * 16 + c div 4]"
| "b64_bytes [a, b] = [a * 4 + b div 16]"
| "b64_bytes [a] = []"
| "b64_bytes [] = []"

definition atob :: "string \<Rightarrow> string option" where
  "atob data =
     (let d0 = filter (\<lambda>c. \<not> is_ascii_ws c) data;
          d1 = (if length d0 mod 4 = 0
                then (if suffix ''=='' d0 then butlast (butlast d0)
                      else if suffix ''='' d0 then butlast d0
                      else d0)
                else d0)
      in if length d1 mod 4 = 1 then None
         else if list_ex (\<lambda>c. b64_index c = None) d1 then None
         else Some (map char_of (b64_bytes (map (\<lambda>c. the (b64_index c)) d1))))"

section \<open>File operation executors\<close>

record GitHubCredentials = RepoPathDescriptor +
  token :: string
  cred_description :: "string option"

record check_args =
  config_name :: string
  file_path :: "string option"

record content_args = check_args +
  branch :: "string option"

text \<open>
  A \<^verbatim>\<open>ToolCallResult\<close> holds one text. Each constructor stands for one text template of
  the executors and carries the values the template interpolates, in the order of the
  source: the file path, then what the response gave, then \<^verbatim>\<open>isFile\<close> and \<^verbatim>\<open>folder\<close>,
  then the message of the error.
\<close>

datatype ToolCallResult =
    FileExists string nat string bool "string option"
  | FileDoesNotExist string bool "string option"
  | ErrorCheckingFile string bool "string option" string
  | ConfigFileExists string nat string
  | ConfigFileDoesNotExist string
  | NotAFile string string bool "string option"
  | FileContent string string nat bool "string option" string
  | FileNotFound string bool "string option"
  | ErrorAccessingFile string bool "string option" string

text \<open>\<^verbatim>\<open>getGitHubConfig(configName, credentials)\<close> of the docs server.\<close>

definition getGitHubConfig :: "env \<Rightarrow> string \<Rightarrow> GitHubCredentials option \<Rightarrow> error + GitHubCredentials" where
  "getGitHubConfig e configName credentials =
     (case credentials of
        Some c \<Rightarrow> Inr c
      | None \<Rightarrow>
          (case find (\<lambda>c. name c = configName) (catalog e) of
             None \<Rightarrow> Inl (Error (''Unknown configuration: '' @ configName
                                  @ ''. Available configurations: ''
                                  @ js_join '', '' (map name (catalog e))))
           | Some config \<Rightarrow>
               (case parseGitHubRepoPath (github_repo_path config) of
                  Inl err \<Rightarrow> Inl err
                | Inr d \<Rightarrow>
                    (let tok = (if github_token config \<noteq> [] then Some (github_token config)
                                else env_GITHUB_TOKEN e)
                     in if \<not> truthy tok
                        then Inl (Error ''GitHub token is required - set GITHUB_TOKEN environment variable'')
                        else Inr \<lparr>owner = owner d, repo = repo d, folder = folder d,
                                  specificFile = specificFile d, isFile = isFile d,
                                  token = the tok,
                                  cred_description = Some (description config)\<rparr>))))"

text \<open>The message of the error thrown when neither the configuration nor the caller names a file.\<close>

definition no_file_specified :: "string \<Rightarrow> string" where
  "no_file_specified configName =
     ''No file specified. Config '' @ [dq] @ configName @ [dq]
       @ '' points to a folder, please specify file_path parameter.''"

definition contents_url :: "string \<Rightarrow> string \<Rightarrow> string \<Rightarrow> string" where
  "contents_url ow rp filePath =
     ''https://api.github.com/repos/'' @ ow @ ''/'' @ rp @ ''/contents/'' @ filePath"

text \<open>
  The file path an executor works on (\<^verbatim>\<open>let filePath\<close> and the conditional after it): the
  file of the configuration if it designates one, else the path of the caller, passed
  through the folder guard; with neither, the executor throws. The check executor uses
  \<^verbatim>\<open>enforceFolderSecurity\<close>, the content executor \<^verbatim>\<open>ensurePathInFolder\<close>.
\<close>

definition check_file_path :: "GitHubCredentials \<Rightarrow> check_args \<Rightarrow> error + string" where
  "check_file_path c args =
     (if isFile c \<and> truthy (specificFile c) then Inr (the (specificFile c))
      else if truthy (file_path args)
      then enforceFolderSecurity (the (file_path args)) (folder c)
      else Inl (Error (no_file_specified (config_name args))))"

definition content_file_path :: "GitHubCredentials \<Rightarrow> content_args \<Rightarrow> error + string" where
  "content_file_path c args =
     (if isFile c \<and> truthy (specificFile c) then Inr (the (specificFile c))
      else if truthy (file_path args)
      then Inr (ensurePathInFolder (the (file_path args)) (folder c))
      else Inl (Error (no_file_specified (config_name args))))"

text \<open>\<^verbatim>\<open>global_docs_check_file_exists(args, credentials)\<close>\<close>

definition global_docs_check_file_exists ::
  "env \<Rightarrow> check_args \<Rightarrow> GitHubCredentials option \<Rightarrow> world \<Rightarrow> (error + ToolCallResult) \<times> world" where
  "global_docs_check_file_exists e args credentials w =
     (case getGitHubConfig e (config_name args) credentials of
        Inl err \<Rightarrow> (Inl err, w)
      | Inr c \<Rightarrow>
          (case check_file_path c args of
             Inl err \<Rightarrow> (Inl err, w)
           | Inr filePath \<Rightarrow>
               (let apiUrl = contents_url (owner c) (repo c) filePath;
                    (res, w') = fetchGitHubAPI e apiUrl (token c) w
                in case res of
                     Inr r \<Rightarrow>
                       (Inr (FileExists filePath (j_size r) (j_html_url r) (isFile c) (folder c)), w')
                   | Inl err \<Rightarrow>
                       if js_includes (message err) ''404''
                       then (Inr (FileDoesNotExist filePath (isFile c) (folder c)), w')
                       else (Inr (ErrorCheckingFile filePath (isFile c) (folder c) (message err)), w'))))"

text \<open>\<^verbatim>\<open>getGitHubConfig()\<close> of the configs server: token, owner and repo from the environment.\<close>

definition config_getGitHubConfig :: "env \<Rightarrow> error + (string \<times> string \<times> string)" where
  "config_getGitHubConfig e =
     (if \<not> truthy (env_GITHUB_TOKEN e)
      then Inl (Error ''GITHUB_TOKEN environment variable is required but not set'')
      else if \<not> truthy (env_GITHUB_OWNER e)
      then Inl (Error ''GITHUB_OWNER environment variable is required but not set'')
      else if \<not> truthy (env_GITHUB_REPO e)
      then Inl (Error ''GITHUB_REPO environment variable is required but not set'')
      else Inr (the (env_GITHUB_TOKEN e), the (env_GITHUB_OWNER e), the (env_GITHUB_REPO e)))"

text \<open>\<^verbatim>\<open>config_check_file_exists(args)\<close> of the configs server.\<close>

definition config_check_file_exists ::
  "env \<Rightarrow> string \<Rightarrow> world \<Rightarrow> (error + ToolCallResult) \<times> world" where
  "config_check_file_exists e args_file_path w =
     (case config_getGitHubConfig e of
        Inl err \<Rightarrow> (Inl err, w)
      | Inr (tok, ow, rp) \<Rightarrow>
          (let apiUrl = contents_url ow rp args_file_path;
               (res, w') = fetchGitHubAPI e apiUrl tok w
           in case res of
                Inr r \<Rightarrow> (Inr (ConfigFileExists args_file_path (j_size r) (j_html_url r)), w')
              | Inl err \<Rightarrow>
                  if js_includes (message err) ''404''
                  then (Inr (ConfigFileDoesNotExist args_file_path), w')
                  else (Inl (Error (''Failed to check file existence: '' @ message err)), w')))"

text \<open>\<^verbatim>\<open>global_docs_get_file_content(args, credentials)\<close>\<close>

definition global_docs_get_file_content ::
  "env \<Rightarrow> content_args \<Rightarrow> GitHubCredentials option \<Rightarrow> world \<Rightarrow> (error + ToolCallResult) \<times> world" where
  "global_docs_get_file_content e args credentials w =
     (case getGitHubConfig e (config_name args) credentials of
        Inl err \<Rightarrow> (Inl err, w)
      | Inr c \<Rightarrow>
          (let br = (if truthy (branch args) then the (branch args) else ''main'')
           in case content_file_path c args of
                Inl err \<Rightarrow> (Inl err, w)
              | Inr filePath \<Rightarrow>
                  (let apiUrl = contents_url (owner c) (repo c) filePath @ ''?ref='' @ br;
                       (res, w') = fetchGitHubAPI e apiUrl (token c) w
                   in case res of
                        Inr r \<Rightarrow>
                          if j_type r \<noteq> ''file''
                          then (Inr (NotAFile filePath (j_type r) (isFile c) (folder c)), w')
                          else
                            (case atob (filter (\<lambda>ch. ch \<noteq> CHR 0x0A) (j_content r)) of
                               None \<Rightarrow>
                                 if js_includes (atob_message e) ''404''
                                 then (Inr (FileNotFound filePath (isFile c) (folder c)), w')
                                 else (Inr (ErrorAccessingFile filePath (isFile c) (folder c)
                                              (atob_message e)), w')
                             | Some content \<Rightarrow>
                                 (Inr (FileContent filePath br (j_size r) (isFile c) (folder c)
                                         content), w'))
                      | Inl err \<Rightarrow>
                          if js_includes (message err) ''404''
                          then (Inr (FileNotFound filePath (isFile c) (folder c)), w')
                          else (Inr (ErrorAccessingFile filePath (isFile c) (folder c)
                                       (message err)), w'))))"

section \<open>Observations on the request log\<close>


section \<open>Properties of the folder guard\<close>

lemma strip_trailing_decomp:
  "\<exists>t. s = strip_trailing s @ t \<and> (\<forall>c\<in>set t. c = slash)"
proof -
  let ?P = "\<lambda>c. c = slash"
  have "rev s = takeWhile ?P (rev s) @ dropWhile ?P (rev s)" by simp
  then have "s = rev (dropWhile ?P (rev s)) @ rev (takeWhile ?P (rev s))"
    by (metis rev_append rev_rev_ident)
  moreover have "\<forall>c\<in>set (rev (takeWhile ?P (rev s))). c = slash"
    by (auto dest: set_takeWhileD)
  ultimately show ?thesis unfolding strip_trailing_def by blast
qed

lemma strip_trailing_append_nonslash:
  "\<exists>c\<in>set s. c \<noteq> slash \<Longrightarrow> strip_trailing (x @ s) = x @ strip_trailing s"
  by (auto simp: strip_trailing_def dropWhile_append1)

lemma strip_trailing_append_slashes:
  "\<forall>c\<in>set s. c = slash \<Longrightarrow> strip_trailing (x @ s) = strip_trailing x"
  using dropWhile_append2[of "rev s" "\<lambda>c. c = slash" "rev x"] by (simp add: strip_trailing_def)

lemma strip_leading_append:
  "\<exists>c\<in>set f. c \<noteq> slash \<Longrightarrow> strip_leading (f @ x) = strip_leading f @ x"
  by (auto simp: strip_leading_def dropWhile_append1)

lemma strip_leading_idem: "strip_leading (strip_leading s) = strip_leading s"
  by (simp add: strip_leading_def dropWhile_idem)

lemma strip_leading_hd: "strip_leading s \<noteq> [] \<Longrightarrow> hd (strip_leading s) \<noteq> slash"
  unfolding strip_leading_def using hd_dropWhile[of "\<lambda>c. c = slash" s] by simp

lemma strip_leading_noop: "s = [] \<or> hd s \<noteq> slash \<Longrightarrow> strip_leading s = s"
  by (cases s) (auto simp: strip_leading_def)

lemma strip_leading_nonslash: "\<exists>c\<in>set f. c \<noteq> slash \<Longrightarrow> \<exists>c\<in>set (strip_leading f). c \<noteq> slash"
  unfolding strip_leading_def
  by (metis (mono_tags, lifting) dropWhile_eq_Nil_conv hd_dropWhile hd_in_set)

lemma strip_trailing_nonempty: "\<exists>c\<in>set f. c \<noteq> slash \<Longrightarrow> strip_trailing f \<noteq> []"
  unfolding strip_trailing_def by (auto simp: dropWhile_eq_Nil_conv)

lemma strip_trailing_hd: "strip_trailing s \<noteq> [] \<Longrightarrow> hd (strip_trailing s) = hd s"
  using strip_trailing_decomp[of s] by (metis hd_append2)

lemma prefix_slash_run:
  "\<forall>c\<in>set t. c = slash \<Longrightarrow> prefix (n @ [slash]) (n @ t @ slash # r)"
  by (cases t) auto

lemma validatePath_inside:
  assumes f: "\<exists>c\<in>set f. c \<noteq> slash"
  shows "validatePath (f @ [slash] @ s) (Some f)"
proof -
  let ?g = "strip_leading f"
  let ?nf = "strip_trailing ?g"
  from f have fne: "f \<noteq> []" by auto
  obtain t where t: "?g = ?nf @ t" "\<forall>c\<in>set t. c = slash"
    using strip_trailing_decomp[of ?g] by blast
  have lead: "strip_leading (f @ [slash] @ s) = ?nf @ t @ slash # s"
    using strip_leading_append[OF f, of "[slash] @ s"] t(1) by simp
  show ?thesis
  proof (cases "\<forall>c\<in>set s. c = slash")
    case True
    then have "\<forall>c\<in>set (t @ slash # s). c = slash" using t(2) by auto
    then have "strip_trailing (?nf @ (t @ slash # s)) = strip_trailing ?nf"
      by (rule strip_trailing_append_slashes)
    moreover have "strip_trailing ?nf = ?nf"
      by (simp add: strip_trailing_def dropWhile_idem)
    ultimately show ?thesis using fne lead
      by (simp add: validatePath_def Let_def)
  next
    case False
    then have "strip_trailing ((?nf @ t @ [slash]) @ s) = (?nf @ t @ [slash]) @ strip_trailing s"
      by (intro strip_trailing_append_nonslash) auto
    then have "strip_trailing (strip_leading (f @ [slash] @ s)) = ?nf @ t @ slash # strip_trailing s"
      using lead by simp
    then show ?thesis using fne prefix_slash_run[OF t(2)]
      by (simp add: validatePath_def Let_def startsWith_def)
  qed
qed

lemma enforceFolderSecurity_unrestricted:
  "enforceFolderSecurity p None = Inr p" "enforceFolderSecurity p (Some []) = Inr p"
  by (simp_all add: enforceFolderSecurity_def)

lemma access_denied_names_path: "sublist p (access_denied p f)"
proof -
  have "access_denied p f =
          (''Access denied: Path '' @ [dq]) @ p
            @ ([dq] @ '' is outside the allowed folder '' @ [dq] @ f @ [dq])"
    by (simp add: access_denied_def)
  then show ?thesis by (metis sublist_appendI)
qed

lemma access_denied_names_folder: "sublist f (access_denied p f)"
proof -
  have "access_denied p f =
          (''Access denied: Path '' @ [dq] @ p @ [dq] @ '' is outside the allowed folder '' @ [dq])
            @ f @ [dq]"
    by (simp add: access_denied_def)
  then show ?thesis by (metis sublist_appendI)
qed

text \<open>
  C3, as the code has it. With a non-empty folder, \<^verbatim>\<open>enforceFolderSecurity\<close> returns the
  candidate path unchanged exactly when, after leading and trailing slashes are stripped
  from both the candidate and the folder, the candidate equals the folder or starts with
  the folder followed by a slash; otherwise it throws the access-denied error, whose message
  contains both the path and the folder as given. With no folder or the empty folder
  (the guard \<^verbatim>\<open>!allowedFolder\<close>) every path is returned unchanged.
\<close>

theorem enforceFolderSecurity_accepts_iff:
  assumes "f \<noteq> []"
  shows "enforceFolderSecurity p (Some f) =
           (if strip_trailing (strip_leading p) = strip_trailing (strip_leading f)
               \<or> prefix (strip_trailing (strip_leading f) @ ''/'') (strip_trailing (strip_leading p))
            then Inr p
            else Inl (Error (access_denied p f)))
         \<and> sublist p (access_denied p f) \<and> sublist f (access_denied p f)
         \<and> enforceFolderSecurity p None = Inr p
         \<and> enforceFolderSecurity p (Some []) = Inr p"
  using assms access_denied_names_path[of p f] access_denied_names_folder[of f p]
  by (auto simp: enforceFolderSecurity_def validatePath_def Let_def startsWith_def slash_def)

theorem enforceFolderSecurity_accepts_iff_witness:
  "''docs'' \<noteq> []
   \<and> enforceFolderSecurity ''docs/readme.md'' (Some ''docs'') = Inr ''docs/readme.md''
   \<and> enforceFolderSecurity ''other/readme.md'' (Some ''docs'')
       = Inl (Error (access_denied ''other/readme.md'' ''docs''))"
proof -
  have h: "''docs'' \<noteq> []" by simp
  show ?thesis
    using enforceFolderSecurity_accepts_iff[OF h, of "''docs/readme.md''"]
          enforceFolderSecurity_accepts_iff[OF h, of "''other/readme.md''"]
    by (simp add: strip_leading_def strip_trailing_def slash_def)
qed

text \<open>
  C3 as stated fails for the empty folder: the candidate \<^verbatim>\<open>a\<close> neither equals the stripped
  folder nor starts with it followed by a slash, and is accepted.
\<close>

theorem enforceFolderSecurity_empty_folder_counterexample:
  "enforceFolderSecurity ''a'' (Some []) = Inr ''a''
   \<and> \<not> (strip_trailing (strip_leading ''a'') = strip_trailing (strip_leading [])
          \<or> prefix (strip_trailing (strip_leading []) @ ''/'') (strip_trailing (strip_leading ''a'')))"
  by (simp add: enforceFolderSecurity_def strip_leading_def strip_trailing_def slash_def)

text \<open>
  C4, as the code has it. The guard is a test on strings, with no treatment of \<^verbatim>\<open>..\<close>:
  for every folder \<open>f\<close> that is empty or has a character other than the slash, and
  every suffix \<open>s\<close>, \<^verbatim>\<open>enforceFolderSecurity(f + "/" + s, f)\<close> returns its argument unchanged.
\<close>

theorem enforceFolderSecurity_prefix_only:
  assumes "f = [] \<or> (\<exists>c\<in>set f. c \<noteq> CHR ''/'')"
  shows "enforceFolderSecurity (f @ ''/'' @ s) (Some f) = Inr (f @ ''/'' @ s)"
proof (cases "f = []")
  case True
  then show ?thesis by (simp add: enforceFolderSecurity_def)
next
  case False
  with assms have "\<exists>c\<in>set f. c \<noteq> slash" by (simp add: slash_def)
  from validatePath_inside[OF this, of s] show ?thesis
    by (simp add: enforceFolderSecurity_def slash_def)
qed

theorem enforceFolderSecurity_prefix_only_witness:
  "(''docs'' = [] \<or> (\<exists>c\<in>set ''docs''. c \<noteq> CHR ''/''))
   \<and> enforceFolderSecurity (''docs'' @ ''/'' @ ''../secret.md'') (Some ''docs'')
       = Inr (''docs'' @ ''/'' @ ''../secret.md'')"
proof -
  have h: "''docs'' = [] \<or> (\<exists>c\<in>set ''docs''. c \<noteq> CHR ''/'')" by simp
  show ?thesis
    using h enforceFolderSecurity_prefix_only[OF h, of "''../secret.md''"] by blast
qed

text \<open>
  C4 as stated fails for the folder \<^verbatim>\<open>/\<close>: it is stripped to the empty string, and the
  stripped candidate \<^verbatim>\<open>a\<close> does not start with a slash.
\<close>

theorem enforceFolderSecurity_slash_folder_counterexample:
  "''a'' \<noteq> []
   \<and> enforceFolderSecurity (''/'' @ ''/'' @ ''a'') (Some ''/'')
       = Inl (Error (access_denied (''/'' @ ''/'' @ ''a'') ''/''))"
  by (simp add: enforceFolderSecurity_def validatePath_def startsWith_def
                strip_leading_def strip_trailing_def slash_def)

lemma ensurePathInFolder_twice:
  "ensurePathInFolder (ensurePathInFolder p fo) fo = ensurePathInFolder p fo"
proof (cases fo)
  case None
  then show ?thesis by (simp add: ensurePathInFolder_def)
next
  case (Some f)
  show ?thesis
  proof (cases "f = []")
    case True
    with Some show ?thesis by (simp add: ensurePathInFolder_def)
  next
    case False
    let ?np = "strip_leading p"
    let ?nf = "strip_trailing (strip_leading f)"
    show ?thesis
    proof (cases "\<not> startsWith ?np (?nf @ [slash]) \<and> ?np \<noteq> ?nf")
      case outside: True
      then have r: "ensurePathInFolder p fo = ?nf @ [slash] @ ?np"
        using Some False by (simp add: ensurePathInFolder_def Let_def)
      show ?thesis
      proof (cases "?nf = []")
        case True
        have "strip_leading (slash # ?np) = ?np"
          by (simp add: strip_leading_def dropWhile_idem)
        then show ?thesis using r True outside Some False
          by (simp add: ensurePathInFolder_def Let_def)
      next
        case nf: False
        then have "hd ?nf \<noteq> slash"
          using strip_trailing_hd[of "strip_leading f"] strip_leading_hd[of f]
          by (metis strip_trailing_def dropWhile.simps(1) rev.simps(1))
        then have "strip_leading (?nf @ [slash] @ ?np) = ?nf @ [slash] @ ?np"
          using nf by (intro strip_leading_noop) simp
        then show ?thesis using r Some False
          by (simp add: ensurePathInFolder_def Let_def startsWith_def)
      qed
    next
      case inside: False
      then have r: "ensurePathInFolder p fo = ?np"
        using Some False by (auto simp add: ensurePathInFolder_def Let_def)
      show ?thesis using r inside Some False
        by (auto simp add: ensurePathInFolder_def Let_def strip_leading_idem)
    qed
  qed
qed

text \<open>
  C9. \<^verbatim>\<open>ensurePathInFolder("readme.md", "docs")\<close> is \<^verbatim>\<open>"docs/readme.md"\<close>,
  \<^verbatim>\<open>ensurePathInFolder("docs/readme.md", "docs")\<close> is its argument, and for every path and
  every folder (absent, empty or not) applying the function twice gives what applying it
  once gives.
\<close>

theorem ensurePathInFolder_idempotent:
  "ensurePathInFolder ''readme.md'' (Some ''docs'') = ''docs/readme.md''
   \<and> ensurePathInFolder ''docs/readme.md'' (Some ''docs'') = ''docs/readme.md''
   \<and> ensurePathInFolder (ensurePathInFolder p fo) fo = ensurePathInFolder p fo"
proof -
  have "ensurePathInFolder ''readme.md'' (Some ''docs'') = ''docs/readme.md''"
    by (simp add: ensurePathInFolder_def startsWith_def strip_leading_def strip_trailing_def
                  slash_def)
  moreover have "ensurePathInFolder ''docs/readme.md'' (Some ''docs'') = ''docs/readme.md''"
    by (simp add: ensurePathInFolder_def startsWith_def strip_leading_def strip_trailing_def
                  slash_def)
  ultimately show ?thesis using ensurePathInFolder_twice[of p fo] by simp
qed

section \<open>Properties of the path resolver\<close>

lemma js_split_Nil: "sep \<noteq> [] \<Longrightarrow> js_split sep [] = [[]]"
  by (subst js_split.simps) simp

lemma js_split_char_Cons:
  "js_split [c] (x # xs) =
     (if x = c then [] # js_split [c] xs
      else (x # hd (js_split [c] xs)) # tl (js_split [c] xs))"
  by (subst js_split.simps) (auto simp: Let_def)

lemma js_split_char_nonempty: "js_split [c] s \<noteq> []"
  by (induction s) (auto simp: js_split_Nil js_split_char_Cons)

lemma js_split_char_segments: "seg \<in> set (js_split [c] s) \<Longrightarrow> c \<notin> set seg"
proof (induction s arbitrary: seg)
  case Nil
  then show ?case by (simp add: js_split_Nil)
next
  case (Cons x xs)
  show ?case
  proof (cases "x = c")
    case True
    with Cons show ?thesis by (auto simp: js_split_char_Cons)
  next
    case False
    obtain h t where ht: "js_split [c] xs = h # t"
      using js_split_char_nonempty[of c xs] by (cases "js_split [c] xs") auto
    with Cons False show ?thesis by (auto simp: js_split_char_Cons)
  qed
qed

lemma js_join_Cons: "ys \<noteq> [] \<Longrightarrow> js_join sep (x # ys) = x @ sep @ js_join sep ys"
  by (cases ys) auto

lemma js_join_split_char: "js_join [c] (js_split [c] s) = s"
proof (induction s)
  case Nil
  then show ?case by (simp add: js_split_Nil)
next
  case (Cons x xs)
  obtain h t where ht: "js_split [c] xs = h # t"
    using js_split_char_nonempty[of c xs] by (cases "js_split [c] xs") auto
  show ?case
  proof (cases "x = c")
    case True
    then show ?thesis using Cons ht by (simp add: js_split_char_Cons)
  next
    case False
    then show ?thesis using Cons ht by (cases t) (auto simp: js_split_char_Cons)
  qed
qed

lemma js_split_char_no_sep: "c \<notin> set s \<Longrightarrow> js_split [c] s = [s]"
  by (induction s) (auto simp: js_split_Nil js_split_char_Cons)

lemma js_split_char_append:
  "c \<notin> set a \<Longrightarrow> js_split [c] (a @ c # b) = a # js_split [c] b"
  by (induction a) (auto simp: js_split_char_Cons)

lemma js_split_join_char:
  "xs \<noteq> [] \<Longrightarrow> \<forall>seg\<in>set xs. c \<notin> set seg \<Longrightarrow> js_split [c] (js_join [c] xs) = xs"
proof (induction xs)
  case Nil
  then show ?case by simp
next
  case (Cons x xs)
  show ?case
  proof (cases "xs = []")
    case True
    with Cons show ?thesis by (simp add: js_split_char_no_sep)
  next
    case False
    with Cons show ?thesis by (simp add: js_join_Cons js_split_char_append)
  qed
qed

lemma js_join_snoc:
  "1 < length xs \<Longrightarrow> js_join sep xs = js_join sep (butlast xs) @ sep @ last xs"
proof (induction xs)
  case Nil
  then show ?case by simp
next
  case (Cons x xs)
  show ?case
  proof (cases "1 < length xs")
    case True
    with Cons show ?thesis by (cases xs) (auto simp: js_join_Cons)
  next
    case False
    with Cons.prems obtain y where "xs = [y]" by (cases xs) auto
    then show ?thesis by simp
  qed
qed

lemma dropWhile_run: "\<forall>c\<in>set xs. P c \<Longrightarrow> \<not> P y \<Longrightarrow> dropWhile P (xs @ y # ys) = y # ys"
  by (induction xs) auto

lemma takeWhile_run: "\<forall>c\<in>set xs. P c \<Longrightarrow> \<not> P y \<Longrightarrow> takeWhile P (xs @ y # ys) = xs"
  by (induction xs) auto

lemma not_alnum_slash: "\<not> is_alnum CHR ''/''"
  by (simp add: is_alnum_def)

lemma fileExtensionRegex_append:
  "fileExtensionRegex (a @ CHR ''/'' # b) = fileExtensionRegex b" if "CHR ''/'' \<notin> set b"
proof (cases "\<forall>c\<in>set (rev b). is_alnum c")
  case True
  have dn: "dropWhile is_alnum (rev b) = []" using True by simp
  have d2: "dropWhile is_alnum (rev b @ CHR ''/'' # rev a) = CHR ''/'' # rev a"
    using True not_alnum_slash by (simp add: dropWhile_run)
  show ?thesis by (simp add: fileExtensionRegex_def Let_def dn d2)
next
  case False
  then have d: "dropWhile is_alnum (rev b @ CHR ''/'' # rev a) = dropWhile is_alnum (rev b) @ CHR ''/'' # rev a"
    by (auto simp: dropWhile_append1)
  have t: "takeWhile is_alnum (rev b @ CHR ''/'' # rev a) = takeWhile is_alnum (rev b)"
    using False by (auto simp: takeWhile_append1)
  from False have "dropWhile is_alnum (rev b) \<noteq> []" by (auto simp: dropWhile_eq_Nil_conv)
  then show ?thesis using d t
    by (cases "dropWhile is_alnum (rev b)") (auto simp: fileExtensionRegex_def Let_def)
qed

lemma fileExtensionRegex_join:
  assumes "xs \<noteq> []" "CHR ''/'' \<notin> set (last xs)"
  shows "fileExtensionRegex (js_join ''/'' xs) = fileExtensionRegex (last xs)"
proof (cases "1 < length xs")
  case True
  then have "js_join ''/'' xs = js_join ''/'' (butlast xs) @ CHR ''/'' # last xs"
    using js_join_snoc[of xs "''/''"] by simp
  then show ?thesis using fileExtensionRegex_append[OF assms(2)] by simp
next
  case False
  with assms(1) obtain y where "xs = [y]" by (cases xs) auto
  then show ?thesis by simp
qed

lemma fileExtensionRegex_iff:
  "fileExtensionRegex s \<longleftrightarrow>
     (\<exists>pre ext. s = pre @ ''.'' @ ext \<and> ext \<noteq> [] \<and> (\<forall>c\<in>set ext. is_alnum c))"
proof
  assume l: "fileExtensionRegex s"
  let ?t = "takeWhile is_alnum (rev s)"
  let ?d = "dropWhile is_alnum (rev s)"
  from l obtain r where d: "?d = CHR ''.'' # r" and t: "?t \<noteq> []"
    by (auto simp: fileExtensionRegex_def Let_def split: list.splits)
  have "rev s = ?t @ ?d" by simp
  then have "s = rev ?d @ rev ?t" by (metis rev_append rev_rev_ident)
  then have "s = rev r @ ''.'' @ rev ?t" using d by simp
  moreover have "\<forall>c\<in>set (rev ?t). is_alnum c" by (auto dest: set_takeWhileD)
  ultimately show "\<exists>pre ext. s = pre @ ''.'' @ ext \<and> ext \<noteq> [] \<and> (\<forall>c\<in>set ext. is_alnum c)"
    using t by (metis rev_is_Nil_conv)
next
  assume "\<exists>pre ext. s = pre @ ''.'' @ ext \<and> ext \<noteq> [] \<and> (\<forall>c\<in>set ext. is_alnum c)"
  then obtain pre ext where s: "s = pre @ ''.'' @ ext" and e: "ext \<noteq> []" "\<forall>c\<in>set ext. is_alnum c"
    by blast
  have na: "\<not> is_alnum CHR ''.''" by (simp add: is_alnum_def)
  have r: "rev s = rev ext @ CHR ''.'' # rev pre" using s by simp
  have "takeWhile is_alnum (rev s) = rev ext"
    unfolding r using e(2) na by (simp add: takeWhile_run)
  moreover have "dropWhile is_alnum (rev s) = CHR ''.'' # rev pre"
    unfolding r using e(2) na by (simp add: dropWhile_run)
  ultimately show "fileExtensionRegex s" using e(1) by (simp add: fileExtensionRegex_def Let_def)
qed

lemma validate_owner_repo_ok:
  "validRepoRegex (owner d) \<Longrightarrow> validRepoRegex (repo d) \<Longrightarrow> validate_owner_repo d = Inr d"
  by (auto simp: validate_owner_repo_def validRepoRegex_def)

lemma validate_owner_repo_Inr: "validate_owner_repo d = Inr d' \<Longrightarrow> d' = d"
  by (auto simp: validate_owner_repo_def split: if_splits)

lemma clean_path_Nil: "clean_path [] = []"
  by (simp add: clean_path_def trim_def strip_leading_def strip_trailing_def startsWith_def
                endsWith_def)

lemma parseGitHubRepoPath_plain:
  assumes "\<not> js_includes (clean_path p) ''/tree/''"
    and "js_split ''/'' (clean_path p) = ow # rp # sub"
  shows "parseGitHubRepoPath p =
           validate_owner_repo
             (if sub = [] then \<lparr>owner = ow, repo = rp, folder = None, specificFile = None, isFile = False\<rparr>
              else if fileExtensionRegex (js_join ''/'' sub)
              then \<lparr>owner = ow, repo = rp,
                    folder = (if 1 < length sub then Some (js_join ''/'' (butlast sub)) else None),
                    specificFile = Some (js_join ''/'' sub), isFile = True\<rparr>
              else \<lparr>owner = ow, repo = rp, folder = Some (js_join ''/'' sub),
                    specificFile = None, isFile = False\<rparr>)"
proof -
  have "clean_path p \<noteq> []" using assms(2) by (auto simp: js_split_Nil)
  then have "p \<noteq> []" using clean_path_Nil by auto
  then show ?thesis using assms
    by (auto simp: parseGitHubRepoPath_def parse_plain_def Let_def)
qed

lemma fileExtensionRegex_nonempty: "fileExtensionRegex s \<Longrightarrow> s \<noteq> []"
  by (auto simp: fileExtensionRegex_def)

lemma parse_plain_inv:
  assumes "parse_plain rp0 cp = Inr d"
  shows "(isFile d \<longleftrightarrow> specificFile d \<noteq> None)
         \<and> (isFile d \<longrightarrow> (\<exists>s. specificFile d = Some s \<and> fileExtensionRegex s))
         \<and> (isFile d \<longrightarrow> (\<forall>fo. folder d = Some fo \<longrightarrow>
               (\<exists>nm. CHR ''/'' \<notin> set nm \<and> specificFile d = Some (fo @ ''/'' @ nm))))"
proof -
  let ?parts = "js_split ''/'' cp"
  let ?pp = "drop 2 ?parts"
  have seg: "\<And>seg. seg \<in> set ?pp \<Longrightarrow> CHR ''/'' \<notin> set seg"
    using js_split_char_segments by (metis in_set_dropD)
  have snoc: "1 < length ?pp \<Longrightarrow>
      \<exists>nm. CHR ''/'' \<notin> set nm \<and> js_join ''/'' ?pp = js_join ''/'' (butlast ?pp) @ ''/'' @ nm"
  proof -
    assume l: "1 < length ?pp"
    then have "?pp \<noteq> []" by auto
    then have "last ?pp \<in> set ?pp" by (rule last_in_set)
    then have "CHR ''/'' \<notin> set (last ?pp)" by (rule seg)
    then show ?thesis using js_join_snoc[OF l, of "''/''"] by blast
  qed
  show ?thesis using assms snoc
    by (auto simp: parse_plain_def Let_def split: if_splits)
qed

lemma parse_tree_inv:
  assumes "parse_tree rp0 cp = Inr d"
  shows "(isFile d \<longleftrightarrow> specificFile d \<noteq> None)
         \<and> (isFile d \<longrightarrow> (\<exists>s. specificFile d = Some s \<and> fileExtensionRegex s))
         \<and> (isFile d \<longrightarrow> (\<forall>fo. folder d = Some fo \<longrightarrow>
               (\<exists>nm. CHR ''/'' \<notin> set nm \<and> specificFile d = Some (fo @ ''/'' @ nm))))"
proof -
  have snoc: "\<exists>nm. CHR ''/'' \<notin> set nm \<and> s = js_join ''/'' (butlast (js_split ''/'' s)) @ ''/'' @ nm"
    if l: "1 < length (js_split ''/'' s)" for s
  proof -
    let ?pp = "js_split ''/'' s"
    from l have "?pp \<noteq> []" by auto
    then have "last ?pp \<in> set ?pp" by simp
    then have "CHR ''/'' \<notin> set (last ?pp)" by (rule js_split_char_segments)
    then show ?thesis using js_join_snoc[OF l, of "''/''"] js_join_split_char[of "CHR ''/''" s]
      by metis
  qed
  show ?thesis using assms snoc
    by (auto simp: parse_tree_def Let_def split: if_splits)
qed

text \<open>
  C1. Parsing \<^verbatim>\<open>owner/repo/a/b/file.json\<close> gives owner \<^verbatim>\<open>owner\<close>, repo \<^verbatim>\<open>repo\<close>, folder
  \<^verbatim>\<open>a/b\<close>, specificFile \<^verbatim>\<open>a/b/file.json\<close> and isFile true. In general, for a path that
  after cleaning has no \<^verbatim>\<open>/tree/\<close> and splits at slashes into a valid owner, a valid repo
  and a non-empty list \<open>sub\<close> of further segments, the last of which has a file extension:
  the result is a file, specificFile is the segments of \<open>sub\<close> joined by slashes, and folder
  is all but the last segment joined, present only when \<open>sub\<close> has more than one segment.
\<close>

theorem parseGitHubRepoPath_plain_file:
  assumes "\<not> js_includes (clean_path p) ''/tree/''"
    and "js_split ''/'' (clean_path p) = ow # rp # sub"
    and "sub \<noteq> []"
    and "fileExtensionRegex (last sub)"
    and "validRepoRegex ow" and "validRepoRegex rp"
  shows "parseGitHubRepoPath ''owner/repo/a/b/file.json''
           = Inr \<lparr>owner = ''owner'', repo = ''repo'', folder = Some ''a/b'',
                  specificFile = Some ''a/b/file.json'', isFile = True\<rparr>
         \<and> parseGitHubRepoPath p =
             Inr \<lparr>owner = ow, repo = rp,
                  folder = (if 1 < length sub then Some (js_join ''/'' (butlast sub)) else None),
                  specificFile = Some (js_join ''/'' sub), isFile = True\<rparr>"
proof -
  have ex: "parseGitHubRepoPath ''owner/repo/a/b/file.json''
              = Inr \<lparr>owner = ''owner'', repo = ''repo'', folder = Some ''a/b'',
                     specificFile = Some ''a/b/file.json'', isFile = True\<rparr>"
    by code_simp
  have "last sub \<in> set (js_split ''/'' (clean_path p))"
    using assms(2,3) by simp
  then have "CHR ''/'' \<notin> set (last sub)" by (rule js_split_char_segments)
  then have "fileExtensionRegex (js_join ''/'' sub)"
    using assms(3,4) fileExtensionRegex_join by simp
  then have "parseGitHubRepoPath p =
             Inr \<lparr>owner = ow, repo = rp,
                  folder = (if 1 < length sub then Some (js_join ''/'' (butlast sub)) else None),
                  specificFile = Some (js_join ''/'' sub), isFile = True\<rparr>"
    using parseGitHubRepoPath_plain[OF assms(1,2)] assms(3,5,6)
    by (simp add: validate_owner_repo_ok)
  with ex show ?thesis by blast
qed

theorem parseGitHubRepoPath_plain_file_witness:
  "\<not> js_includes (clean_path ''ghostmind-dev/docs/docs/app/app.md'') ''/tree/''
   \<and> js_split ''/'' (clean_path ''ghostmind-dev/docs/docs/app/app.md'')
       = ''ghostmind-dev'' # ''docs'' # [''docs'', ''app'', ''app.md'']
   \<and> [''docs'', ''app'', ''app.md''] \<noteq> []
   \<and> fileExtensionRegex (last [''docs'', ''app'', ''app.md''])
   \<and> validRepoRegex ''ghostmind-dev'' \<and> validRepoRegex ''docs''
   \<and> parseGitHubRepoPath ''ghostmind-dev/docs/docs/app/app.md''
       = Inr \<lparr>owner = ''ghostmind-dev'', repo = ''docs'', folder = Some ''docs/app'',
              specificFile = Some ''docs/app/app.md'', isFile = True\<rparr>"
proof -
  have h1: "\<not> js_includes (clean_path ''ghostmind-dev/docs/docs/app/app.md'') ''/tree/''"
    by code_simp
  have h2: "js_split ''/'' (clean_path ''ghostmind-dev/docs/docs/app/app.md'')
              = ''ghostmind-dev'' # ''docs'' # [''docs'', ''app'', ''app.md'']"
    by code_simp
  have h3: "[''docs'', ''app'', ''app.md''] \<noteq> []" by simp
  have h4: "fileExtensionRegex (last [''docs'', ''app'', ''app.md''])" by code_simp
  have h5: "validRepoRegex ''ghostmind-dev''" by code_simp
  have h6: "validRepoRegex ''docs''" by code_simp
  show ?thesis
    using h1 h2 h3 h4 h5 h6 parseGitHubRepoPath_plain_file[OF h1 h2 h3 h4 h5 h6]
    by simp
qed

text \<open>
  C2. Whenever \<^verbatim>\<open>parseGitHubRepoPath\<close> returns a descriptor, isFile is true exactly when
  specificFile is set; and when isFile is true and folder is present, folder is the parent
  directory of specificFile: specificFile is folder, a slash, and a last segment with no
  slash in it.
\<close>

theorem parseGitHubRepoPath_descriptor_invariant:
  assumes "parseGitHubRepoPath p = Inr d"
  shows "(isFile d \<longleftrightarrow> specificFile d \<noteq> None)
         \<and> (isFile d \<longrightarrow> (\<forall>fo. folder d = Some fo \<longrightarrow>
               (\<exists>nm. CHR ''/'' \<notin> set nm \<and> specificFile d = Some (fo @ ''/'' @ nm))))"
proof -
  from assms obtain d0 where
    d0: "parse_tree p (clean_path p) = Inr d0 \<or> parse_plain p (clean_path p) = Inr d0"
    and v: "validate_owner_repo d0 = Inr d"
    by (auto simp: parseGitHubRepoPath_def Let_def split: if_splits sum.splits)
  from v have "d = d0" by (rule validate_owner_repo_Inr)
  then show ?thesis
    using d0 parse_tree_inv[of p "clean_path p" d0] parse_plain_inv[of p "clean_path p" d0]
    by blast
qed

theorem parseGitHubRepoPath_descriptor_invariant_witness:
  "parseGitHubRepoPath ''https://github.com/owner/repo/tree/main/a/b/file.json''
     = Inr \<lparr>owner = ''owner'', repo = ''repo'', folder = Some ''a/b'',
            specificFile = Some ''a/b/file.json'', isFile = True\<rparr>
   \<and> isFile \<lparr>owner = ''owner'', repo = ''repo'', folder = Some ''a/b'',
              specificFile = Some ''a/b/file.json'', isFile = True\<rparr>
   \<and> specificFile \<lparr>owner = ''owner'', repo = ''repo'', folder = Some ''a/b'',
                    specificFile = Some ''a/b/file.json'', isFile = True\<rparr> \<noteq> None"
proof -
  have h: "parseGitHubRepoPath ''https://github.com/owner/repo/tree/main/a/b/file.json''
             = Inr \<lparr>owner = ''owner'', repo = ''repo'', folder = Some ''a/b'',
                    specificFile = Some ''a/b/file.json'', isFile = True\<rparr>"
    by code_simp
  show ?thesis
    using h parseGitHubRepoPath_descriptor_invariant[OF h] by simp
qed

text \<open>
  C7. Parsing \<^verbatim>\<open>https://github.com/owner/repo/tree/main/a/b\<close> gives owner \<^verbatim>\<open>owner\<close>, repo
  \<^verbatim>\<open>repo\<close>, folder \<^verbatim>\<open>a/b\<close> and isFile false. For every path that after cleaning includes
  \<^verbatim>\<open>/tree/\<close>, and whose part after \<^verbatim>\<open>/tree/\<close> has no slash (the branch name alone), a
  descriptor that is returned has no folder (and no specificFile, and isFile false).
\<close>

theorem parseGitHubRepoPath_tree_url:
  assumes "js_includes (clean_path p) ''/tree/''"
    and "js_split ''/tree/'' (clean_path p) = [rpart, bf]"
    and "CHR ''/'' \<notin> set bf"
    and "parseGitHubRepoPath p = Inr d"
  shows "parseGitHubRepoPath ''https://github.com/owner/repo/tree/main/a/b''
           = Inr \<lparr>owner = ''owner'', repo = ''repo'', folder = Some ''a/b'',
                  specificFile = None, isFile = False\<rparr>
         \<and> folder d = None \<and> specificFile d = None \<and> \<not> isFile d"
proof -
  have ex: "parseGitHubRepoPath ''https://github.com/owner/repo/tree/main/a/b''
              = Inr \<lparr>owner = ''owner'', repo = ''repo'', folder = Some ''a/b'',
                     specificFile = None, isFile = False\<rparr>"
    by code_simp
  have "js_split ''/'' bf = [bf]" using assms(3) by (rule js_split_char_no_sep)
  then have "folder d = None \<and> specificFile d = None \<and> \<not> isFile d"
    using assms(1,2,4)
    by (auto simp: parseGitHubRepoPath_def parse_tree_def Let_def
             split: if_splits sum.splits dest!: validate_owner_repo_Inr)
  with ex show ?thesis by blast
qed

theorem parseGitHubRepoPath_tree_url_witness:
  "js_includes (clean_path ''https://github.com/owner/repo/tree/main'') ''/tree/''
   \<and> js_split ''/tree/'' (clean_path ''https://github.com/owner/repo/tree/main'')
       = [''owner/repo'', ''main'']
   \<and> CHR ''/'' \<notin> set ''main''
   \<and> parseGitHubRepoPath ''https://github.com/owner/repo/tree/main''
       = Inr \<lparr>owner = ''owner'', repo = ''repo'', folder = None,
              specificFile = None, isFile = False\<rparr>
   \<and> folder \<lparr>owner = ''owner'', repo = ''repo'', folder = None,
              specificFile = None, isFile = False\<rparr> = None"
proof -
  have h1: "js_includes (clean_path ''https://github.com/owner/repo/tree/main'') ''/tree/''"
    by code_simp
  have h2: "js_split ''/tree/'' (clean_path ''https://github.com/owner/repo/tree/main'')
              = [''owner/repo'', ''main'']"
    by code_simp
  have h3: "CHR ''/'' \<notin> set ''main''" by simp
  have h4: "parseGitHubRepoPath ''https://github.com/owner/repo/tree/main''
              = Inr \<lparr>owner = ''owner'', repo = ''repo'', folder = None,
                     specificFile = None, isFile = False\<rparr>"
    by code_simp
  show ?thesis
    using h1 h2 h3 h4 parseGitHubRepoPath_tree_url[OF h1 h2 h3 h4] by simp
qed

section \<open>Properties of the branch allocator\<close>




lemma prefix_allocation_failed: "prefix (allocation_failed n) (allocation_failed n @ x)"
  by simp





section \<open>Properties of the executors\<close>

lemma show_nat_404: "show_nat 404 = ''404''"
  by code_simp

lemma api_error_404: "status r = 404 \<Longrightarrow> js_includes (api_error r) ''404''"
proof -
  assume "status r = 404"
  then have "api_error r = ''GitHub API error: '' @ ''404'' @ ('' '' @ statusText r @ '' - '' @ body_text r)"
    by (simp add: api_error_def show_nat_404)
  then show ?thesis unfolding js_includes_def by (metis sublist_appendI)
qed

lemma request_result_404:
  "status r = 404 \<Longrightarrow> request_result (Response r) = Inl (Error (api_error r))"
  by (simp add: request_result_def ok_def)

lemma docs_check_on_failure:
  assumes "getGitHubConfig e (config_name args) credentials = Inr c"
    and "check_file_path c args = Inr filePath"
    and "request_result (remote e (requests w)
           (Get (contents_url (owner c) (repo c) filePath) (token c))) = Inl err"
  shows "fst (global_docs_check_file_exists e args credentials w) =
           (if js_includes (message err) ''404''
            then Inr (FileDoesNotExist filePath (isFile c) (folder c))
            else Inr (ErrorCheckingFile filePath (isFile c) (folder c) (message err)))"
  using assms
  by (simp add: global_docs_check_file_exists_def fetchGitHubAPI_def fetch_def Let_def)

lemma config_check_on_failure:
  assumes "config_getGitHubConfig e = Inr (tok, ow, rp)"
    and "request_result (remote e (requests w) (Get (contents_url ow rp path) tok)) = Inl err"
  shows "fst (config_check_file_exists e path w) =
           (if js_includes (message err) ''404''
            then Inr (ConfigFileDoesNotExist path)
            else Inl (Error (''Failed to check file existence: '' @ message err)))"
  using assms
  by (simp add: config_check_file_exists_def fetchGitHubAPI_def fetch_def Let_def)

lemma content_path_of_file:
  "isFile c \<Longrightarrow> specificFile c = Some sf \<Longrightarrow> sf \<noteq> [] \<Longrightarrow> content_file_path c args = Inr sf"
  by (simp add: content_file_path_def)

text \<open>
  C8, as the code has it. When the remote answers the request of a check-file-exists
  executor with status 404, the executor returns the "does not exist" text. When the
  request fails with an error whose message does not contain \<^verbatim>\<open>404\<close>, the executor of the
  configs server throws \<^verbatim>\<open>Failed to check file existence: \<close> followed by the message, and
  the executor of the docs server catches the error and returns the "error checking file"
  text with the message. Each executor is taken under its own conditions: the docs executor
  once its credentials and its file path are resolved, the configs executor once its three
  environment variables are read.
\<close>

theorem check_file_exists_remote_failure:
  "(getGitHubConfig e (config_name args) credentials = Inr c
      \<and> check_file_path c args = Inr filePath
      \<and> remote e (requests w) (Get (contents_url (owner c) (repo c) filePath) (token c)) = fr
    \<longrightarrow>
      (fr = Response r \<and> status r = 404 \<longrightarrow>
         fst (global_docs_check_file_exists e args credentials w)
           = Inr (FileDoesNotExist filePath (isFile c) (folder c)))
      \<and> (request_result fr = Inl err \<and> \<not> js_includes (message err) ''404'' \<longrightarrow>
         fst (global_docs_check_file_exists e args credentials w)
           = Inr (ErrorCheckingFile filePath (isFile c) (folder c) (message err))))
   \<and> (config_getGitHubConfig e' = Inr (tok, ow, rp)
      \<and> remote e' (requests w') (Get (contents_url ow rp path) tok) = fr'
    \<longrightarrow>
      (fr' = Response r' \<and> status r' = 404 \<longrightarrow>
         fst (config_check_file_exists e' path w') = Inr (ConfigFileDoesNotExist path))
      \<and> (request_result fr' = Inl err' \<and> \<not> js_includes (message err') ''404'' \<longrightarrow>
         fst (config_check_file_exists e' path w')
           = Inl (Error (''Failed to check file existence: '' @ message err'))))"
proof (intro conjI impI)
  assume h: "getGitHubConfig e (config_name args) credentials = Inr c
      \<and> check_file_path c args = Inr filePath
      \<and> remote e (requests w) (Get (contents_url (owner c) (repo c) filePath) (token c)) = fr"
    and "fr = Response r \<and> status r = 404"
  then have "request_result fr = Inl (Error (api_error r))" "js_includes (api_error r) ''404''"
    using request_result_404[of r] api_error_404[of r] by simp_all
  then show "fst (global_docs_check_file_exists e args credentials w)
               = Inr (FileDoesNotExist filePath (isFile c) (folder c))"
    using docs_check_on_failure[of e args credentials c filePath w "Error (api_error r)"] h
    by simp
next
  assume h: "getGitHubConfig e (config_name args) credentials = Inr c
      \<and> check_file_path c args = Inr filePath
      \<and> remote e (requests w) (Get (contents_url (owner c) (repo c) filePath) (token c)) = fr"
    and "request_result fr = Inl err \<and> \<not> js_includes (message err) ''404''"
  then show "fst (global_docs_check_file_exists e args credentials w)
               = Inr (ErrorCheckingFile filePath (isFile c) (folder c) (message err))"
    using docs_check_on_failure[of e args credentials c filePath w err] by simp
next
  assume h: "config_getGitHubConfig e' = Inr (tok, ow, rp)
      \<and> remote e' (requests w') (Get (contents_url ow rp path) tok) = fr'"
    and "fr' = Response r' \<and> status r' = 404"
  then have "request_result fr' = Inl (Error (api_error r'))" "js_includes (api_error r') ''404''"
    using request_result_404[of r'] api_error_404[of r'] by simp_all
  then show "fst (config_check_file_exists e' path w') = Inr (ConfigFileDoesNotExist path)"
    using config_check_on_failure[of e' tok ow rp w' path "Error (api_error r')"] h by simp
next
  assume h: "config_getGitHubConfig e' = Inr (tok, ow, rp)
      \<and> remote e' (requests w') (Get (contents_url ow rp path) tok) = fr'"
    and "request_result fr' = Inl err' \<and> \<not> js_includes (message err') ''404''"
  then show "fst (config_check_file_exists e' path w')
               = Inl (Error (''Failed to check file existence: '' @ message err'))"
    using config_check_on_failure[of e' tok ow rp w' path err'] by simp
qed

theorem check_file_exists_remote_failure_witness:
  "fst (global_docs_check_file_exists
      \<lparr>remote = (\<lambda>h r. Response \<lparr>status = 404, statusText = ''Not Found'',
                                  body_text = ''missing'',
                                  body_json = \<lparr>j_type = [], j_size = 0, j_html_url = [],
                                               j_content = []\<rparr>\<rparr>),
        clock = (\<lambda>k. []), random36 = (\<lambda>k. []),
        catalog = [\<lparr>name = ''gitignore'', description = ''Update .gitignore files'',
                    github_repo_path = ''ghostmind-dev/config/config/git'',
                    github_token = ''t0ken''\<rparr>],
        env_GITHUB_TOKEN = None, env_GITHUB_OWNER = None,
        env_GITHUB_REPO = None, atob_message = []\<rparr>
      \<lparr>config_name = ''gitignore'', file_path = Some ''config/git/a.txt''\<rparr> None
      \<lparr>requests = [], generated = 0\<rparr>)
     = Inr (FileDoesNotExist ''config/git/a.txt'' False (Some ''config/git''))
   \<and> fst (config_check_file_exists
      \<lparr>remote = (\<lambda>h r. Response \<lparr>status = 404, statusText = ''Not Found'',
                                  body_text = ''missing'',
                                  body_json = \<lparr>j_type = [], j_size = 0, j_html_url = [],
                                               j_content = []\<rparr>\<rparr>),
        clock = (\<lambda>k. []), random36 = (\<lambda>k. []),
        catalog = [],
        env_GITHUB_TOKEN = Some ''t0ken'', env_GITHUB_OWNER = Some ''ghostmind-dev'',
        env_GITHUB_REPO = Some ''config'', atob_message = []\<rparr>
      ''config/git/a.txt''
      \<lparr>requests = [], generated = 0\<rparr>)
     = Inr (ConfigFileDoesNotExist ''config/git/a.txt'')
   \<and> fst (global_docs_check_file_exists
      \<lparr>remote = (\<lambda>h r. Response \<lparr>status = 500, statusText = ''Internal Server Error'',
                                  body_text = ''boom'',
                                  body_json = \<lparr>j_type = [], j_size = 0, j_html_url = [],
                                               j_content = []\<rparr>\<rparr>),
        clock = (\<lambda>k. []), random36 = (\<lambda>k. []),
        catalog = [\<lparr>name = ''gitignore'', description = ''Update .gitignore files'',
                    github_repo_path = ''ghostmind-dev/config/config/git'',
                    github_token = ''t0ken''\<rparr>],
        env_GITHUB_TOKEN = None, env_GITHUB_OWNER = None,
        env_GITHUB_REPO = None, atob_message = []\<rparr>
      \<lparr>config_name = ''gitignore'', file_path = Some ''config/git/a.txt''\<rparr> None
      \<lparr>requests = [], generated = 0\<rparr>)
     = Inr (ErrorCheckingFile ''config/git/a.txt'' False (Some ''config/git'')
              ''GitHub API error: 500 Internal Server Error - boom'')
   \<and> fst (config_check_file_exists
      \<lparr>remote = (\<lambda>h r. Response \<lparr>status = 500, statusText = ''Internal Server Error'',
                                  body_text = ''boom'',
                                  body_json = \<lparr>j_type = [], j_size = 0, j_html_url = [],
                                               j_content = []\<rparr>\<rparr>),
        clock = (\<lambda>k. []), random36 = (\<lambda>k. []),
        catalog = [],
        env_GITHUB_TOKEN = Some ''t0ken'', env_GITHUB_OWNER = Some ''ghostmind-dev'',
        env_GITHUB_REPO = Some ''config'', atob_message = []\<rparr>
      ''config/git/a.txt''
      \<lparr>requests = [], generated = 0\<rparr>)
     = Inl (Error (''Failed to check file existence: ''
                   @ ''GitHub API error: 500 Internal Server Error - boom''))"
proof -
  let ?r = "\<lparr>status = 404, statusText = ''Not Found'', body_text = ''missing'',
             body_json = \<lparr>j_type = [], j_size = 0, j_html_url = [], j_content = []\<rparr>\<rparr>"
  let ?r5 = "\<lparr>status = 500, statusText = ''Internal Server Error'', body_text = ''boom'',
             body_json = \<lparr>j_type = [], j_size = 0, j_html_url = [], j_content = []\<rparr>\<rparr>"
  let ?cat = "[\<lparr>name = ''gitignore'', description = ''Update .gitignore files'',
                    github_repo_path = ''ghostmind-dev/config/config/git'',
                    github_token = ''t0ken''\<rparr>]"
  let ?d = "\<lparr>remote = (\<lambda>h r. Response ?r),
             clock = (\<lambda>k. []), random36 = (\<lambda>k. []), catalog = ?cat,
             env_GITHUB_TOKEN = None, env_GITHUB_OWNER = None,
             env_GITHUB_REPO = None, atob_message = []\<rparr>"
  let ?d5 = "\<lparr>remote = (\<lambda>h r. Response ?r5),
             clock = (\<lambda>k. []), random36 = (\<lambda>k. []), catalog = ?cat,
             env_GITHUB_TOKEN = None, env_GITHUB_OWNER = None,
             env_GITHUB_REPO = None, atob_message = []\<rparr>"
  let ?e = "\<lparr>remote = (\<lambda>h r. Response ?r),
             clock = (\<lambda>k. []), random36 = (\<lambda>k. []), catalog = [],
             env_GITHUB_TOKEN = Some ''t0ken'', env_GITHUB_OWNER = Some ''ghostmind-dev'',
             env_GITHUB_REPO = Some ''config'', atob_message = []\<rparr>"
  let ?e5 = "\<lparr>remote = (\<lambda>h r. Response ?r5),
             clock = (\<lambda>k. []), random36 = (\<lambda>k. []), catalog = [],
             env_GITHUB_TOKEN = Some ''t0ken'', env_GITHUB_OWNER = Some ''ghostmind-dev'',
             env_GITHUB_REPO = Some ''config'', atob_message = []\<rparr>"
  let ?args = "\<lparr>config_name = ''gitignore'', file_path = Some ''config/git/a.txt''\<rparr>"
  let ?c = "\<lparr>owner = ''ghostmind-dev'', repo = ''config'', folder = Some ''config/git'',
             specificFile = None, isFile = False, token = ''t0ken'',
             cred_description = Some ''Update .gitignore files''\<rparr>"
  let ?w = "\<lparr>requests = [], generated = 0\<rparr>"
  have h1: "getGitHubConfig ?d (config_name ?args) None = Inr ?c"
    by code_simp
  have h2: "check_file_path ?c ?args = Inr ''config/git/a.txt''"
    by code_simp
  have h3: "config_getGitHubConfig ?e = Inr (''t0ken'', ''ghostmind-dev'', ''config'')"
    by (simp add: config_getGitHubConfig_def)
  have h4: "remote ?d (requests ?w)
              (Get (contents_url (owner ?c) (repo ?c) ''config/git/a.txt'') (token ?c))
            = Response ?r"
    by simp
  have h5: "remote ?e (requests ?w)
              (Get (contents_url ''ghostmind-dev'' ''config'' ''config/git/a.txt'') ''t0ken'')
            = Response ?r"
    by simp
  have a: "fst (global_docs_check_file_exists ?d ?args None ?w)
             = Inr (FileDoesNotExist ''config/git/a.txt'' False (Some ''config/git''))
           \<and> fst (config_check_file_exists ?e ''config/git/a.txt'' ?w)
             = Inr (ConfigFileDoesNotExist ''config/git/a.txt'')"
    using check_file_exists_remote_failure[where e = ?d and args = ?args and credentials = None
            and c = ?c and filePath = "''config/git/a.txt''" and w = ?w and fr = "Response ?r"
            and r = ?r and e' = ?e and tok = "''t0ken''" and ow = "''ghostmind-dev''"
            and rp = "''config''" and w' = ?w and path = "''config/git/a.txt''"
            and fr' = "Response ?r" and r' = ?r]
          h1 h2 h3 h4 h5
    by simp
  have k1: "getGitHubConfig ?d5 (config_name ?args) None = Inr ?c"
    by code_simp
  have k3: "config_getGitHubConfig ?e5 = Inr (''t0ken'', ''ghostmind-dev'', ''config'')"
    by (simp add: config_getGitHubConfig_def)
  have k4: "remote ?d5 (requests ?w)
              (Get (contents_url (owner ?c) (repo ?c) ''config/git/a.txt'') (token ?c))
            = Response ?r5"
    by simp
  have k5: "remote ?e5 (requests ?w)
              (Get (contents_url ''ghostmind-dev'' ''config'' ''config/git/a.txt'') ''t0ken'')
            = Response ?r5"
    by simp
  have msg: "api_error ?r5 = ''GitHub API error: 500 Internal Server Error - boom''"
    by code_simp
  have rr: "request_result (Response ?r5) = Inl (Error (api_error ?r5))"
    by (simp add: request_result_def ok_def)
  have no404: "\<not> js_includes (message (Error (api_error ?r5))) ''404''"
    by code_simp
  have b: "fst (global_docs_check_file_exists ?d5 ?args None ?w)
             = Inr (ErrorCheckingFile ''config/git/a.txt'' False (Some ''config/git'')
                      ''GitHub API error: 500 Internal Server Error - boom'')
           \<and> fst (config_check_file_exists ?e5 ''config/git/a.txt'' ?w)
             = Inl (Error (''Failed to check file existence: ''
                           @ ''GitHub API error: 500 Internal Server Error - boom''))"
    using check_file_exists_remote_failure[where e = ?d5 and args = ?args and credentials = None
            and c = ?c and filePath = "''config/git/a.txt''" and w = ?w and fr = "Response ?r5"
            and err = "Error (api_error ?r5)" and e' = ?e5 and tok = "''t0ken''"
            and ow = "''ghostmind-dev''" and rp = "''config''" and w' = ?w
            and path = "''config/git/a.txt''" and fr' = "Response ?r5"
            and err' = "Error (api_error ?r5)"]
          k1 h2 k3 k4 k5 rr no404 msg
    by simp
  from a b show ?thesis by (intro conjI) (erule conjunct1 conjunct2)+
qed

text \<open>
  C8 as stated fails on a failure other than a 404: a response with status 500 whose body
  contains \<^verbatim>\<open>404\<close> makes the executor of the configs server return the "does not exist"
  text, and a response with status 500 makes the executor of the docs server return a text
  result, where the claim has an error propagate.
\<close>

theorem check_file_exists_other_failure_counterexample:
  "fst (config_check_file_exists
      \<lparr>remote = (\<lambda>h r. Response \<lparr>status = 500, statusText = ''Internal Server Error'',
                                  body_text = ''request 404a failed'',
                                  body_json = \<lparr>j_type = [], j_size = 0, j_html_url = [],
                                               j_content = []\<rparr>\<rparr>),
        clock = (\<lambda>k. []), random36 = (\<lambda>k. []), catalog = [],
        env_GITHUB_TOKEN = Some ''t0ken'', env_GITHUB_OWNER = Some ''ghostmind-dev'',
        env_GITHUB_REPO = Some ''config'', atob_message = []\<rparr>
      ''config/git/a.txt''
      \<lparr>requests = [], generated = 0\<rparr>)
     = Inr (ConfigFileDoesNotExist ''config/git/a.txt'')
   \<and> fst (global_docs_check_file_exists
      \<lparr>remote = (\<lambda>h r. Response \<lparr>status = 500, statusText = ''Internal Server Error'',
                                  body_text = ''boom'',
                                  body_json = \<lparr>j_type = [], j_size = 0, j_html_url = [],
                                               j_content = []\<rparr>\<rparr>),
        clock = (\<lambda>k. []), random36 = (\<lambda>k. []),
        catalog = [\<lparr>name = ''gitignore'', description = ''Update .gitignore files'',
                    github_repo_path = ''ghostmind-dev/config/config/git'',
                    github_token = ''t0ken''\<rparr>],
        env_GITHUB_TOKEN = None, env_GITHUB_OWNER = None,
        env_GITHUB_REPO = None, atob_message = []\<rparr>
      \<lparr>config_name = ''gitignore'', file_path = Some ''config/git/a.txt''\<rparr> None
      \<lparr>requests = [], generated = 0\<rparr>)
     = Inr (ErrorCheckingFile ''config/git/a.txt'' False (Some ''config/git'')
              ''GitHub API error: 500 Internal Server Error - boom'')"
  by code_simp

text \<open>
  C6. When the credentials of the configuration have isFile true and a non-empty
  specificFile, the get-file-content executor does the same whatever \<^verbatim>\<open>file_path\<close> the caller
  gives, and the one request it sends is the GET of the contents of specificFile at the
  branch.
\<close>

theorem get_file_content_uses_specificFile:
  assumes "getGitHubConfig e (config_name args) credentials = Inr c"
    and "isFile c" and "specificFile c = Some sf" and "sf \<noteq> []"
  shows "global_docs_get_file_content e (args\<lparr>file_path := fp\<rparr>) credentials w
           = global_docs_get_file_content e args credentials w
         \<and> requests (snd (global_docs_get_file_content e args credentials w))
             = requests w @ [Get (contents_url (owner c) (repo c) sf @ ''?ref=''
                                   @ (if truthy (branch args) then the (branch args) else ''main''))
                                 (token c)]"
proof -
  have p: "content_file_path c a = Inr sf" for a
    using assms(2-4) by (rule content_path_of_file)
  have 1: "global_docs_get_file_content e (args\<lparr>file_path := fp\<rparr>) credentials w
           = global_docs_get_file_content e args credentials w"
    using assms(1) p by (simp add: global_docs_get_file_content_def)
  have 2: "requests (snd (global_docs_get_file_content e args credentials w))
             = requests w @ [Get (contents_url (owner c) (repo c) sf @ ''?ref=''
                                   @ (if truthy (branch args) then the (branch args) else ''main''))
                                 (token c)]"
    using assms(1) p
    by (simp add: global_docs_get_file_content_def fetchGitHubAPI_def fetch_def Let_def
             split: sum.splits option.splits)
  from 1 2 show ?thesis by blast
qed

theorem get_file_content_uses_specificFile_witness:
  "requests (snd (global_docs_get_file_content
      \<lparr>remote = (\<lambda>h r. Rejected ''offline''),
        clock = (\<lambda>k. []), random36 = (\<lambda>k. []),
        catalog = [\<lparr>name = ''app'', description = ''docs for how to build a new app'',
                    github_repo_path = ''ghostmind-dev/docs/docs/app/app.md'',
                    github_token = ''t0ken''\<rparr>],
        env_GITHUB_TOKEN = None, env_GITHUB_OWNER = None,
        env_GITHUB_REPO = None, atob_message = []\<rparr>
      \<lparr>config_name = ''app'', file_path = Some ''other/file.md'', branch = None\<rparr> None
      \<lparr>requests = [], generated = 0\<rparr>))
   = [Get ''https://api.github.com/repos/ghostmind-dev/docs/contents/docs/app/app.md?ref=main''
          ''t0ken'']"
proof -
  let ?e = "\<lparr>remote = (\<lambda>h r. Rejected ''offline''),
             clock = (\<lambda>k. []), random36 = (\<lambda>k. []),
             catalog = [\<lparr>name = ''app'', description = ''docs for how to build a new app'',
                         github_repo_path = ''ghostmind-dev/docs/docs/app/app.md'',
                         github_token = ''t0ken''\<rparr>],
             env_GITHUB_TOKEN = None, env_GITHUB_OWNER = None,
             env_GITHUB_REPO = None, atob_message = []\<rparr>"
  let ?args = "\<lparr>config_name = ''app'', file_path = Some ''other/file.md'', branch = None\<rparr>"
  let ?c = "\<lparr>owner = ''ghostmind-dev'', repo = ''docs'', folder = Some ''docs/app'',
             specificFile = Some ''docs/app/app.md'', isFile = True, token = ''t0ken'',
             cred_description = Some ''docs for how to build a new app''\<rparr>"
  have h1: "getGitHubConfig ?e (config_name ?args) None = Inr ?c"
    by code_simp
  have h2: "isFile ?c" by simp
  have h3: "specificFile ?c = Some ''docs/app/app.md''" by simp
  have h4: "''docs/app/app.md'' \<noteq> []" by simp
  show ?thesis
    using get_file_content_uses_specificFile[OF h1 h2 h3 h4,
            where w = "\<lparr>requests = [], generated = 0\<rparr>" and fp = None]
    by (simp add: contents_url_def)
qed

text \<open>
  The credentials resolved from a catalog entry that designates a file always have a
  non-empty specificFile: the extension test holds of no empty path.
\<close>

lemma parseGitHubRepoPath_file_set:
  assumes "parseGitHubRepoPath p = Inr d" and "isFile d"
  shows "\<exists>sf. specificFile d = Some sf \<and> sf \<noteq> []"
proof -
  from assms(1) obtain d0 where
    d0: "parse_tree p (clean_path p) = Inr d0 \<or> parse_plain p (clean_path p) = Inr d0"
    and v: "validate_owner_repo d0 = Inr d"
    by (auto simp: parseGitHubRepoPath_def Let_def split: if_splits sum.splits)
  from v have "d = d0" by (rule validate_owner_repo_Inr)
  then obtain sf where "specificFile d = Some sf" "fileExtensionRegex sf"
    using d0 assms(2) parse_tree_inv[of p "clean_path p" d0] parse_plain_inv[of p "clean_path p" d0]
    by blast
  then show ?thesis using fileExtensionRegex_nonempty by blast
qed

lemma getGitHubConfig_catalog_file_set:
  assumes "getGitHubConfig e n None = Inr c" and "isFile c"
  shows "\<exists>sf. specificFile c = Some sf \<and> sf \<noteq> []"
  using assms
  by (auto simp: getGitHubConfig_def Let_def split: option.splits sum.splits if_splits
           dest: parseGitHubRepoPath_file_set)

section \<open>Properties of the content encoding\<close>

lemma b64_index_char: "n < 64 \<Longrightarrow> b64_index (b64_char n) = Some n"
  by (auto simp: b64_index_def b64_char_def Let_def)

lemma b64_char_not_ws: "n < 64 \<Longrightarrow> \<not> is_ascii_ws (b64_char n)"
  by (auto simp: is_ascii_ws_def b64_char_def Let_def)

lemma b64_char_not_pad: "n < 64 \<Longrightarrow> b64_char n \<noteq> CHR ''=''"
proof
  assume n: "n < 64" and "b64_char n = CHR ''=''"
  then have "(of_char (b64_char n) :: nat) = 61" by simp
  with n show False by (auto simp: b64_char_def split: if_splits)
qed

lemma sextet_1: "b < 256 \<Longrightarrow> a div 4 * 4 + ((a mod 4) * 16 + b div 16) div 16 = (a::nat)"
proof -
  assume "b < 256"
  then have "b div 16 < 16" by simp
  then have "((a mod 4) * 16 + b div 16) div 16 = a mod 4" by simp
  then show ?thesis by simp
qed

lemma sextet_2:
  "b < 256 \<Longrightarrow> c < 256 \<Longrightarrow>
   (((a mod 4) * 16 + b div 16) mod 16) * 16 + ((b mod 16) * 4 + c div 64) div 4 = (b::nat)"
proof -
  assume "b < 256" "c < 256"
  then have "b div 16 < 16" "c div 64 < 4" by simp_all
  then have "((a mod 4) * 16 + b div 16) mod 16 = b div 16"
    "((b mod 16) * 4 + c div 64) div 4 = b mod 16" by simp_all
  then show ?thesis by simp
qed

lemma sextet_3: "c < 256 \<Longrightarrow> (((b mod 16) * 4 + c div 64) mod 4) * 64 + c mod 64 = (c::nat)"
proof -
  assume "c < 256"
  then have "c div 64 < 4" by simp
  then have "((b mod 16) * 4 + c div 64) mod 4 = c div 64" by simp
  then show ?thesis by simp
qed

lemma sextet_bounds:
  assumes "a < 256" "b < 256" "c < 256"
  shows "a div 4 < (64::nat)" "(a mod 4) * 16 + b div 16 < 64"
    "(b mod 16) * 4 + c div 64 < 64" "c mod 64 < 64"
proof -
  have m: "a mod 4 < 4" "b mod 16 < 16" by simp_all
  from assms have d: "a div 4 < 64" "b div 16 < 16" "c div 64 < 4" by simp_all
  show "a div 4 < 64" by (rule d(1))
  show "(a mod 4) * 16 + b div 16 < 64" using m(1) d(2) by linarith
  show "(b mod 16) * 4 + c div 64 < 64" using m(2) d(3) by linarith
  show "c mod 64 < 64" by simp
qed

lemma b64_bytes_group:
  assumes "a < 256" "b < 256" "c < 256"
  shows "b64_bytes (a div 4 # ((a mod 4) * 16 + b div 16) # ((b mod 16) * 4 + c div 64) # c mod 64 # q)
           = a # b # c # b64_bytes q"
  using sextet_1[OF assms(2), of a] sextet_2[OF assms(2,3), of a] sextet_3[OF assms(3), of b]
  by simp

lemma b64_bytes_last2:
  assumes "a < 256" "b < 256"
  shows "b64_bytes [a div 4, (a mod 4) * 16 + b div 16, (b mod 16) * 4] = [a, b]"
  using sextet_1[OF assms(2), of a] sextet_2[OF assms(2), of 0 a] by simp

lemma b64_bytes_last1: "b64_bytes [a div 4, (a mod 4) * 16] = [a]"
  using sextet_1[of 0 a] by simp

lemma b64_shapeI:
  assumes "G = map b64_char q @ pad" and "\<forall>x\<in>set q. x < 64" and "b64_bytes q = bs"
    and "(pad = [] \<and> length q mod 4 = 0) \<or> (pad = ''='' \<and> length q mod 4 = 3)
           \<or> (pad = ''=='' \<and> length q mod 4 = 2)"
  shows "\<exists>q pad. G = map b64_char q @ pad
           \<and> (\<forall>x\<in>set q. x < 64)
           \<and> b64_bytes q = bs
           \<and> ((pad = [] \<and> length q mod 4 = 0) \<or> (pad = ''='' \<and> length q mod 4 = 3)
                \<or> (pad = ''=='' \<and> length q mod 4 = 2))"
  apply (rule exI[of _ q])
  apply (rule exI[of _ pad])
  apply (intro conjI)
     apply (rule assms(1))
    apply (rule assms(2))
   apply (rule assms(3))
  apply (rule assms(4))
  done

text \<open>The groups of a list of bytes: sextets below 64, then the padding.\<close>

lemma b64_groups_shape:
  assumes "\<forall>b\<in>set bs. b < 256"
  shows "\<exists>q pad. b64_groups bs = map b64_char q @ pad
           \<and> (\<forall>x\<in>set q. x < 64)
           \<and> b64_bytes q = bs
           \<and> ((pad = [] \<and> length q mod 4 = 0) \<or> (pad = ''='' \<and> length q mod 4 = 3)
                \<or> (pad = ''=='' \<and> length q mod 4 = 2))"
  using assms
proof (induction bs rule: b64_groups.induct)
  case (1 a b c rest)
  from 1(2) have "\<forall>b\<in>set rest. b < 256" by simp
  from 1(1)[OF this] obtain q pad where ih: "b64_groups rest = map b64_char q @ pad"
      "\<forall>x\<in>set q. x < 64" "b64_bytes q = rest"
      "(pad = [] \<and> length q mod 4 = 0) \<or> (pad = ''='' \<and> length q mod 4 = 3)
         \<or> (pad = ''=='' \<and> length q mod 4 = 2)"
    by (elim exE conjE)
  from 1(2) have ran: "a < 256" "b < 256" "c < 256" by simp_all
  let ?g = "[a div 4, (a mod 4) * 16 + b div 16, (b mod 16) * 4 + c div 64, c mod 64]"
  have g64: "\<forall>x\<in>set (?g @ q). x < 64" using sextet_bounds[OF ran] ih(2) by simp
  have dec: "b64_bytes (?g @ q) = a # b # c # rest"
    using b64_bytes_group[OF ran, of q] ih(3) by simp
  have grp: "b64_groups (a # b # c # rest) = map b64_char (?g @ q) @ pad"
    using ih(1) by simp
  have len: "length (?g @ q) mod 4 = length q mod 4" by simp
  have pad: "(pad = [] \<and> length (?g @ q) mod 4 = 0) \<or> (pad = ''='' \<and> length (?g @ q) mod 4 = 3)
         \<or> (pad = ''=='' \<and> length (?g @ q) mod 4 = 2)"
    using ih(4) unfolding len .
  show ?case by (rule b64_shapeI[OF grp g64 dec pad])
next
  case (2 a b)
  then have ran: "a < 256" "b < 256" by simp_all
  let ?g = "[a div 4, (a mod 4) * 16 + b div 16, (b mod 16) * 4]"
  have 1: "b64_groups [a, b] = map b64_char ?g @ ''=''" by simp
  have 2: "\<forall>x\<in>set ?g. x < 64" using sextet_bounds[OF ran, of 0] by simp
  have 3: "b64_bytes ?g = [a, b]" using ran by (rule b64_bytes_last2)
  have 4: "(''='' = [] \<and> length ?g mod 4 = 0) \<or> (''='' = ''='' \<and> length ?g mod 4 = 3)
         \<or> (''='' = ''=='' \<and> length ?g mod 4 = 2)" by simp
  show ?case by (rule b64_shapeI[OF 1 2 3 4])
next
  case (3 a)
  then have ran: "a < 256" by simp
  let ?g = "[a div 4, (a mod 4) * 16]"
  have 1: "b64_groups [a] = map b64_char ?g @ ''==''" by simp
  have 2: "\<forall>x\<in>set ?g. x < 64" using sextet_bounds[OF ran, of 0 0] by simp
  have 3: "b64_bytes ?g = [a]" by (rule b64_bytes_last1)
  have 4: "(''=='' = [] \<and> length ?g mod 4 = 0) \<or> (''=='' = ''='' \<and> length ?g mod 4 = 3)
         \<or> (''=='' = ''=='' \<and> length ?g mod 4 = 2)" by simp
  show ?case by (rule b64_shapeI[OF 1 2 3 4])
next
  case 4
  have 1: "b64_groups [] = map b64_char [] @ []" by simp
  have 2: "\<forall>x\<in>set ([]::nat list). x < 64" by simp
  have 3: "b64_bytes [] = []" by simp
  have 4: "(([]::string) = [] \<and> length ([]::nat list) mod 4 = 0)
         \<or> (([]::string) = ''='' \<and> length ([]::nat list) mod 4 = 3)
         \<or> (([]::string) = ''=='' \<and> length ([]::nat list) mod 4 = 2)" by simp
  show ?case by (rule b64_shapeI[OF 1 2 3 4])
qed

lemma filter_ws_b64: "\<forall>x\<in>set q. x < 64 \<Longrightarrow> filter (\<lambda>c. \<not> is_ascii_ws c) (map b64_char q) = map b64_char q"
  by (induction q) (simp_all add: b64_char_not_ws)

lemma pad_not_ws: "\<not> is_ascii_ws CHR ''=''"
  by (simp add: is_ascii_ws_def)

lemma last_b64_not_pad:
  assumes "\<forall>x\<in>set q. x < 64" "q \<noteq> []"
  shows "last (map b64_char q) \<noteq> CHR ''=''"
proof -
  have "last (map b64_char q) = b64_char (last q)" using assms(2) by (simp add: last_map)
  moreover have "last q < 64" using assms by simp
  ultimately show ?thesis by (simp add: b64_char_not_pad)
qed

lemma not_suffix_pad:
  assumes "\<forall>x\<in>set q. x < 64"
  shows "\<not> suffix ''='' (map b64_char q)"
proof (cases "q = []")
  case True
  then show ?thesis by simp
next
  case False
  show ?thesis
  proof
    assume "suffix ''='' (map b64_char q)"
    then obtain p where "map b64_char q = p @ ''=''" by (auto simp: suffix_def)
    then have "last (map b64_char q) = CHR ''=''" by simp
    with last_b64_not_pad[OF assms False] show False by simp
  qed
qed

lemma not_suffix_pad2:
  assumes "\<forall>x\<in>set q. x < 64"
  shows "\<not> suffix ''=='' (map b64_char q)"
proof
  assume "suffix ''=='' (map b64_char q)"
  then obtain p where "map b64_char q = p @ ''==''" by (auto simp: suffix_def)
  then have "map b64_char q = (p @ ''='') @ ''=''" by simp
  then have "suffix ''='' (map b64_char q)" unfolding suffix_def by blast
  with not_suffix_pad[OF assms] show False by simp
qed

lemma not_suffix_pad2_one:
  assumes "\<forall>x\<in>set q. x < 64"
  shows "\<not> suffix ''=='' (map b64_char q @ ''='')"
proof
  assume "suffix ''=='' (map b64_char q @ ''='')"
  then obtain p where "map b64_char q @ ''='' = p @ ''==''" by (auto simp: suffix_def)
  then have "map b64_char q @ ''='' = (p @ ''='') @ ''=''" by simp
  then have "map b64_char q = p @ ''=''" by (simp only: append_same_eq)
  then have "suffix ''='' (map b64_char q)" unfolding suffix_def by blast
  with not_suffix_pad[OF assms] show False by simp
qed

lemma index_b64: "\<forall>x\<in>set q. x < 64 \<Longrightarrow> map (\<lambda>c. the (b64_index c)) (map b64_char q) = q"
  by (induction q) (simp_all add: b64_index_char)

lemma no_bad_b64: "\<forall>x\<in>set q. x < 64 \<Longrightarrow> \<not> list_ex (\<lambda>c. b64_index c = None) (map b64_char q)"
  by (induction q) (simp_all add: b64_index_char)

lemma atob_unpadded:
  assumes "\<forall>x\<in>set q. x < 64" "length q mod 4 = 0"
  shows "atob (map b64_char q) = Some (map char_of (b64_bytes q))"
proof -
  have f: "filter (\<lambda>c. \<not> is_ascii_ws c) (map b64_char q) = map b64_char q"
    using assms(1) by (rule filter_ws_b64)
  show ?thesis
    unfolding atob_def f Let_def
    using assms(2) not_suffix_pad[OF assms(1)] not_suffix_pad2[OF assms(1)]
          no_bad_b64[OF assms(1)] index_b64[OF assms(1)]
    by simp
qed

lemma atob_padded1:
  assumes "\<forall>x\<in>set q. x < 64" "length q mod 4 = 3"
  shows "atob (map b64_char q @ ''='') = Some (map char_of (b64_bytes q))"
proof -
  have f: "filter (\<lambda>c. \<not> is_ascii_ws c) (map b64_char q @ ''='') = map b64_char q @ ''=''"
    using filter_ws_b64[OF assms(1)] pad_not_ws by simp
  have l: "length (map b64_char q @ ''='') mod 4 = 0"
    using assms(2) by (simp add: mod_Suc)
  have s1: "suffix ''='' (map b64_char q @ ''='')" by (simp add: suffix_def)
  have b: "butlast (map b64_char q @ ''='') = map b64_char q" by (simp add: butlast_append)
  show ?thesis
    unfolding atob_def f Let_def
    using l s1 b not_suffix_pad2_one[OF assms(1)] assms(2)
          no_bad_b64[OF assms(1)] index_b64[OF assms(1)]
    by simp
qed

lemma atob_padded2:
  assumes "\<forall>x\<in>set q. x < 64" "length q mod 4 = 2"
  shows "atob (map b64_char q @ ''=='') = Some (map char_of (b64_bytes q))"
proof -
  have f: "filter (\<lambda>c. \<not> is_ascii_ws c) (map b64_char q @ ''=='') = map b64_char q @ ''==''"
    using filter_ws_b64[OF assms(1)] pad_not_ws by simp
  have l: "length (map b64_char q @ ''=='') mod 4 = 0"
    using assms(2) by (simp add: mod_Suc)
  have s2: "suffix ''=='' (map b64_char q @ ''=='')" by (simp add: suffix_def)
  have b: "butlast (butlast (map b64_char q @ ''=='')) = map b64_char q"
    by (simp add: butlast_append)
  show ?thesis
    unfolding atob_def f Let_def
    using l s2 b assms(2) no_bad_b64[OF assms(1)] index_b64[OF assms(1)]
    by simp
qed

lemma atob_b64_groups:
  assumes "\<forall>b\<in>set bs. b < 256"
  shows "atob (b64_groups bs) = Some (map char_of bs)"
proof -
  from b64_groups_shape[OF assms] obtain q pad where
    g: "b64_groups bs = map b64_char q @ pad" and q: "\<forall>x\<in>set q. x < 64"
    and d: "b64_bytes q = bs"
    and p: "(pad = [] \<and> length q mod 4 = 0) \<or> (pad = ''='' \<and> length q mod 4 = 3)
             \<or> (pad = ''=='' \<and> length q mod 4 = 2)"
    by (elim exE conjE)
  from p show ?thesis
  proof (elim disjE conjE)
    assume "pad = []" "length q mod 4 = 0"
    then show ?thesis using atob_unpadded[OF q] g d by simp
  next
    assume "pad = ''=''" "length q mod 4 = 3"
    then show ?thesis using atob_padded1[OF q] g d by simp
  next
    assume "pad = ''==''" "length q mod 4 = 2"
    then show ?thesis using atob_padded2[OF q] g d by simp
  qed
qed

lemma foldl_snoc_map: "foldl (\<lambda>b x. b @ [f x]) acc xs = acc @ map f xs"
  by (induction xs arbitrary: acc) simp_all

lemma utf8_encode_bytes: "\<forall>b\<in>set (utf8_encode s). b < 256"
proof -
  have "192 + (of_char c :: nat) div 64 < 256 \<and> 128 + (of_char c :: nat) mod 64 < 256" for c
  proof -
    have "(of_char c :: nat) div 64 < 4"
      using less_mult_imp_div_less[of "of_char c :: nat" 4 64] by simp
    moreover have "(of_char c :: nat) mod 64 < 64" by simp
    ultimately show ?thesis by linarith
  qed
  then show ?thesis
    by (induction s) (simp_all add: utf8_encode_def Let_def)
qed

lemma of_char_char_of_bytes:
  "\<forall>b\<in>set bs. b < 256 \<Longrightarrow> map (of_char :: char \<Rightarrow> nat) (map char_of bs) = bs"
  by (induction bs) simp_all

lemma char_of_of_char_string: "map char_of (map (of_char :: char \<Rightarrow> nat) s) = s"
  by (induction s) simp_all

lemma encodeBase64_groups: "encodeBase64 s = b64_groups (utf8_encode s)"
  using of_char_char_of_bytes[OF utf8_encode_bytes, of s]
  by (simp add: encodeBase64_def btoa_def foldl_snoc_map Let_def)

lemma atob_encodeBase64: "atob (encodeBase64 s) = Some (map char_of (utf8_encode s))"
  using atob_b64_groups[OF utf8_encode_bytes, of s] by (simp add: encodeBase64_groups)

lemma utf8_encode_ascii:
  "\<forall>c\<in>set s. (of_char c :: nat) < 128 \<Longrightarrow> utf8_encode s = map of_char s"
  by (induction s) (simp_all add: utf8_encode_def)

lemma atob_encodeBase64_ascii:
  assumes "\<forall>c\<in>set s. (of_char c :: nat) < 128"
  shows "atob (encodeBase64 s) = Some s"
  using atob_encodeBase64[of s] utf8_encode_ascii[OF assms]
  by (simp add: char_of_of_char_string)

text \<open>
  C10 says that \<^verbatim>\<open>atob\<close> undoes \<^verbatim>\<open>encodeBase64\<close> on every string. On the one-character
  string with code unit 233 (e with acute accent) it does not: \<^verbatim>\<open>encodeBase64\<close> encodes
  the two UTF-8 bytes 195 and 169, and \<^verbatim>\<open>atob\<close> returns them as a string of two code
  units. In general \<^verbatim>\<open>atob\<close> returns the UTF-8 bytes of the string as code units
  (\<open>atob_encodeBase64\<close>), which is the string itself only when all its code units are
  below 128 (\<open>atob_encodeBase64_ascii\<close>).
\<close>

theorem atob_encodeBase64_non_ascii:
  "encodeBase64 [CHR 0xE9] = ''w6k=''
   \<and> atob (encodeBase64 [CHR 0xE9]) = Some [CHR 0xC3, CHR 0xA9]
   \<and> atob (encodeBase64 [CHR 0xE9]) \<noteq> Some [CHR 0xE9]"
  by code_simp

end
